theory Spec2Isabelle
  imports Main "HOL-Library.Sublist" "HOL-Library.Word"
begin

section \<open>Strings\<close>

text \<open>
  JavaScript strings are modelled as \<^typ>\<open>string\<close>, one \<^typ>\<open>char\<close> per code unit.
  The recorder only inspects ASCII letters, digits and white space, so the case
  conversion below is the ASCII one.
\<close>

definition toLowerCase_char :: "char \<Rightarrow> char" where
  "toLowerCase_char c =
     (let n = (of_char c :: nat) in if 65 \<le> n \<and> n \<le> 90 then char_of (n + 32) else c)"

definition toLowerCase :: "string \<Rightarrow> string" where
  "toLowerCase s = map toLowerCase_char s"

fun startsWith :: "string \<Rightarrow> string \<Rightarrow> bool" where
  "startsWith s [] = True"
| "startsWith [] (c # cs) = False"
| "startsWith (x # xs) (c # cs) = (x = c \<and> startsWith xs cs)"

text \<open>\<open>str_includes s t\<close> is \<^verbatim>\<open>s.includes(t)\<close>: \<open>t\<close> occurs in \<open>s\<close> as a contiguous run.\<close>

fun str_includes :: "string \<Rightarrow> string \<Rightarrow> bool" where
  "str_includes [] t = (t = [])"
| "str_includes (x # xs) t = (startsWith (x # xs) t \<or> str_includes xs t)"

section \<open>The DOM\<close>

text \<open>
  A document is the tree below \<^verbatim>\<open>document.documentElement\<close>. An element carries its
  upper-case tag name, its attributes in order, its child nodes and the live
  \<^verbatim>\<open>value\<close> and \<^verbatim>\<open>selectedIndex\<close> of a form control; text and comment nodes carry their
  character data. A node of the document is named by the child indices that lead to
  it from the root, so the root is \<open>[]\<close>; while the document stands still, as it
  does during one call of a recorder, object identity is equality of paths. Elements
  are HTML elements, whose \<^verbatim>\<open>className\<close> is a string.
\<close>

datatype dnode =
    Element string "(string \<times> string) list" "dnode list" string int
  | Text string
  | Comment string

fun nodeType :: "dnode \<Rightarrow> nat" where
  "nodeType (Element t a cs v si) = 1"
| "nodeType (Text d) = 3"
| "nodeType (Comment d) = 8"

fun nodeName :: "dnode \<Rightarrow> string" where
  "nodeName (Element t a cs v si) = t"
| "nodeName (Text d) = ''#text''"
| "nodeName (Comment d) = ''#comment''"

fun childNodes :: "dnode \<Rightarrow> dnode list" where
  "childNodes (Element t a cs v si) = cs"
| "childNodes (Text d) = []"
| "childNodes (Comment d) = []"

fun node_at :: "dnode \<Rightarrow> nat list \<Rightarrow> dnode option" where
  "node_at n [] = Some n"
| "node_at n (i # p) =
     (if i < length (childNodes n) then node_at (childNodes n ! i) p else None)"

text \<open>
  \<^verbatim>\<open>parentElement\<close>: the parent of the root is the document, which is not an element,
  so the root has none; every other node's parent is the element one step up.
\<close>

definition parentElement :: "nat list \<Rightarrow> nat list option" where
  "parentElement p = (if p = [] then None else Some (butlast p))"

definition isElementAt :: "dnode \<Rightarrow> nat list \<Rightarrow> bool" where
  "isElementAt doc p = (case node_at doc p of Some n \<Rightarrow> nodeType n = 1 | None \<Rightarrow> False)"

definition getAttribute :: "(string \<times> string) list \<Rightarrow> string \<Rightarrow> string option" where
  "getAttribute a name = map_of a name"

definition hasAttribute :: "(string \<times> string) list \<Rightarrow> string \<Rightarrow> bool" where
  "hasAttribute a name = (map_of a name \<noteq> None)"

fun attributesOf :: "dnode \<Rightarrow> (string \<times> string) list" where
  "attributesOf (Element t a cs v si) = a"
| "attributesOf (Text d) = []"
| "attributesOf (Comment d) = []"

text \<open>The reflected properties \<^verbatim>\<open>id\<close> and \<^verbatim>\<open>className\<close>: the attribute, or the empty string.\<close>

definition el_id :: "dnode \<Rightarrow> string" where
  "el_id n = (case getAttribute (attributesOf n) ''id'' of Some v \<Rightarrow> v | None \<Rightarrow> [])"

definition className :: "dnode \<Rightarrow> string" where
  "className n = (case getAttribute (attributesOf n) ''class'' of Some v \<Rightarrow> v | None \<Rightarrow> [])"

fun textContent :: "dnode \<Rightarrow> string"
and textContents :: "dnode list \<Rightarrow> string" where
  "textContent (Text d) = d"
| "textContent (Comment d) = d"
| "textContent (Element t a cs v si) = textContents cs"
| "textContents [] = []"
| "textContents (c # cs) =
     (case c of Comment d \<Rightarrow> textContents cs | _ \<Rightarrow> textContent c @ textContents cs)"

text \<open>
  \<^verbatim>\<open>querySelectorAll('*')\<close> below a node: the paths, relative to that node and in
  document order, of its descendant elements. \<open>elementsOf\<close> also lists the node itself
  when it is an element.
\<close>

fun elementsOf :: "dnode \<Rightarrow> nat list list"
and elementsOfChildren :: "nat \<Rightarrow> dnode list \<Rightarrow> nat list list" where
  "elementsOf (Element t a cs v si) = [] # elementsOfChildren 0 cs"
| "elementsOf (Text d) = []"
| "elementsOf (Comment d) = []"
| "elementsOfChildren i [] = []"
| "elementsOfChildren i (c # cs) = map ((#) i) (elementsOf c) @ elementsOfChildren (Suc i) cs"

definition querySelectorAll_star :: "dnode \<Rightarrow> nat list \<Rightarrow> nat list list" where
  "querySelectorAll_star doc p =
     (case node_at doc p of
        None \<Rightarrow> []
      | Some n \<Rightarrow> map (\<lambda>q. p @ q) (elementsOfChildren 0 (childNodes n)))"

definition querySelectorAll_attr :: "dnode \<Rightarrow> string \<Rightarrow> nat list list" where
  "querySelectorAll_attr doc name =
     filter (\<lambda>p. case node_at doc p of
                    Some n \<Rightarrow> hasAttribute (attributesOf n) name
                  | None \<Rightarrow> False)
            (elementsOf doc)"

section \<open>DOMRecorder: the selector deriver\<close>

text \<open>White space as \<^verbatim>\<open>trim()\<close> and the pattern \<^verbatim>\<open>\s\<close> see it, on ASCII.\<close>

definition isSpace :: "char \<Rightarrow> bool" where
  "isSpace c = (let n = (of_char c :: nat) in (9 \<le> n \<and> n \<le> 13) \<or> n = 32)"

definition trim :: "string \<Rightarrow> string" where
  "trim s = rev (dropWhile isSpace (rev (dropWhile isSpace s)))"

text \<open>\<^verbatim>\<open>s.split(/\s+/)\<close>: the empty string gives one empty token.\<close>

function split_ws :: "string \<Rightarrow> string list" where
  "split_ws s =
     (let tok = takeWhile (\<lambda>c. \<not> isSpace c) s;
          rest = dropWhile (\<lambda>c. \<not> isSpace c) s
      in if rest = [] then [tok] else tok # split_ws (dropWhile isSpace (tl rest)))"
  by pat_completeness auto
termination
proof (relation "measure length")
  show "wf (measure length)" by simp
next
  fix s :: string and tok rest
  assume r: "rest = dropWhile (\<lambda>c. \<not> isSpace c) s" and ne: "rest \<noteq> []"
  have "length (dropWhile isSpace (tl rest)) \<le> length (tl rest)"
    by (rule length_dropWhile_le)
  also have "\<dots> < length rest" using ne by (cases rest) auto
  also have "\<dots> \<le> length s" unfolding r by (rule length_dropWhile_le)
  finally show "(dropWhile isSpace (tl rest), s) \<in> measure length" by simp
qed

fun join :: "string \<Rightarrow> string list \<Rightarrow> string" where
  "join sep [] = []"
| "join sep [x] = x"
| "join sep (x # y # ys) = x @ sep @ join sep (y # ys)"

text \<open>Decimal rendering of a number, as string interpolation does it.\<close>

definition digit_char :: "nat \<Rightarrow> char" where
  "digit_char d = char_of (48 + d)"

fun string_of_nat :: "nat \<Rightarrow> string" where
  "string_of_nat n =
     (if 10 \<le> n then string_of_nat (n div 10) @ [digit_char (n mod 10)] else [digit_char n])"

text \<open>\<^verbatim>\<open>xs.indexOf(x)\<close>: the first position of \<open>x\<close>, or \<open>-1\<close>.\<close>

fun indexOf :: "'a list \<Rightarrow> 'a \<Rightarrow> int" where
  "indexOf [] x = -1"
| "indexOf (y # ys) x = (if y = x then 0 else (let r = indexOf ys x in if r < 0 then -1 else r + 1))"

text \<open>
  The class part of one level: \<^verbatim>\<open>className.trim().split(/\s+/).slice(0, 2)\<close>, each token
  escaped and prefixed with a dot, when the first token is not empty. \<open>esc\<close> stands
  for the browser's \<^verbatim>\<open>CSS.escape\<close>.
\<close>

definition classSuffix :: "(string \<Rightarrow> string) \<Rightarrow> dnode \<Rightarrow> string" where
  "classSuffix esc n =
     (if className n \<noteq> [] then
        (case take 2 (split_ws (trim (className n))) of
           [] \<Rightarrow> []
         | c # cs \<Rightarrow> if c \<noteq> [] then ''.'' @ join ''.'' (map esc (c # cs)) else [])
      else [])"

text \<open>
  The position part of one level: the children of the parent that are elements with
  the tag name of \<open>cur\<close>; when there is more than one, the one-based position of
  \<open>cur\<close> among them.
\<close>

definition sameTagSiblings :: "dnode \<Rightarrow> dnode \<Rightarrow> nat list" where
  "sameTagSiblings parent cur =
     filter (\<lambda>i. nodeType (childNodes parent ! i) = 1 \<and>
                 nodeName (childNodes parent ! i) = nodeName cur)
            [0 ..< length (childNodes parent)]"

definition nthOfType :: "dnode \<Rightarrow> nat list \<Rightarrow> string" where
  "nthOfType doc cur =
     (case parentElement cur of
        None \<Rightarrow> []
      | Some par \<Rightarrow>
          (case (node_at doc par, node_at doc cur) of
             (Some pn, Some cn) \<Rightarrow>
               (let siblings = sameTagSiblings pn cn
                in if length siblings > 1
                   then '':nth-of-type('' @ string_of_nat (nat (indexOf siblings (last cur) + 1)) @ '')''
                   else [])
           | _ \<Rightarrow> []))"

definition levelSelector :: "(string \<Rightarrow> string) \<Rightarrow> dnode \<Rightarrow> nat list \<Rightarrow> dnode \<Rightarrow> string" where
  "levelSelector esc doc cur n = toLowerCase (nodeName n) @ classSuffix esc n @ nthOfType doc cur"

text \<open>
  The \<^verbatim>\<open>while\<close> loop of \<^verbatim>\<open>getSelector\<close>. \<open>parts\<close> is the array built with \<^verbatim>\<open>unshift\<close>;
  the loop ends at a node that is not an element, at an element with an id (whose
  \<open>#id\<close> heads the path), when there is no parent element, or once \<open>parts\<close> holds
  more than five entries.
\<close>

function getSelector_loop ::
  "(string \<Rightarrow> string) \<Rightarrow> dnode \<Rightarrow> nat list \<Rightarrow> string list \<Rightarrow> string list" where
  "getSelector_loop esc doc cur parts =
     (case node_at doc cur of
        None \<Rightarrow> parts
      | Some n \<Rightarrow>
          if nodeType n \<noteq> 1 then parts
          else if el_id n \<noteq> [] then (''#'' @ esc (el_id n)) # parts
          else (let parts' = levelSelector esc doc cur n # parts
                in if cur = [] then parts'
                   else if length parts' > 5 then parts'
                   else getSelector_loop esc doc (butlast cur) parts'))"
  by pat_completeness auto
termination
  by (relation "measure (\<lambda>(esc, doc, cur, parts). length cur)") auto

definition getSelector :: "(string \<Rightarrow> string) \<Rightarrow> dnode \<Rightarrow> nat list \<Rightarrow> string" where
  "getSelector esc doc el =
     (case node_at doc el of
        None \<Rightarrow> []
      | Some n \<Rightarrow>
          if nodeType n \<noteq> 1 then []
          else if el_id n \<noteq> [] then ''#'' @ esc (el_id n)
          else join '' > '' (getSelector_loop esc doc el []))"

section \<open>DOMRecorder: the node serializer\<close>

text \<open>
  The object \<^verbatim>\<open>serializeNode\<close> returns: \<^verbatim>\<open>type\<close> and \<^verbatim>\<open>name\<close> always, the other
  properties only where the code sets them.
\<close>

datatype snode =
  SNode nat string "string option" "(string \<times> string) list option"
        "snode list option" "string option" "int option"

text \<open>
  \<open>serializeNode ex p n\<close> serializes the node \<open>n\<close> found at path \<open>p\<close>;
  \<open>ex\<close> is the set \<^verbatim>\<open>excludedElements\<close>. \<open>None\<close> is \<^verbatim>\<open>null\<close>. The loop over
  \<^verbatim>\<open>childNodes\<close> is \<open>serializeChildren\<close>, which keeps the children that are not null.
\<close>

fun serializeNode :: "nat list set \<Rightarrow> nat list \<Rightarrow> dnode \<Rightarrow> snode option"
and serializeChildren :: "nat list set \<Rightarrow> nat list \<Rightarrow> nat \<Rightarrow> dnode list \<Rightarrow> snode list" where
  "serializeNode ex p (Text d) = Some (SNode 3 ''#text'' (Some d) None None None None)"
| "serializeNode ex p (Comment d) = Some (SNode 8 ''#comment'' (Some d) None None None None)"
| "serializeNode ex p (Element t a cs v si) =
     (if p \<in> ex then None
      else Some (SNode 1 t None
                  (if a \<noteq> [] then Some a else None)
                  (if cs \<noteq> [] then Some (serializeChildren ex p 0 cs) else None)
                  (if t = ''INPUT'' \<or> t = ''TEXTAREA'' then Some v else None)
                  (if t = ''SELECT'' then Some si else None)))"
| "serializeChildren ex p i [] = []"
| "serializeChildren ex p i (c # cs) =
     (case serializeNode ex (p @ [i]) c of
        None \<Rightarrow> serializeChildren ex p (Suc i) cs
      | Some sc \<Rightarrow> sc # serializeChildren ex p (Suc i) cs)"

text \<open>Serializing the node at a path; a path that names no node is \<^verbatim>\<open>null\<close>.\<close>

definition serializeNode_at :: "dnode \<Rightarrow> nat list set \<Rightarrow> nat list \<Rightarrow> snode option" where
  "serializeNode_at doc ex p =
     (case node_at doc p of None \<Rightarrow> None | Some n \<Rightarrow> serializeNode ex p n)"

section \<open>DOMRecorder: the identity registry\<close>

text \<open>
  \<^verbatim>\<open>nodeIdMap\<close> is a WeakMap keyed by node identity and \<^verbatim>\<open>nextNodeId\<close> a counter
  starting at 1. The counter is a \<^typ>\<open>nat\<close>: a session never comes near the
  \<open>2^53\<close> allocations at which a JavaScript number stops counting.
\<close>

record 'n registry =
  nodeIdMap :: "'n \<rightharpoonup> nat"
  nextNodeId :: nat

definition new_registry :: "'n registry" where
  "new_registry = \<lparr>nodeIdMap = Map.empty, nextNodeId = 1\<rparr>"

definition getNodeId :: "'n \<Rightarrow> ('n, 'x) registry_scheme \<Rightarrow> nat \<times> ('n, 'x) registry_scheme" where
  "getNodeId node r =
     (let r' = (if nodeIdMap r node = None
                then r\<lparr>nodeIdMap := (nodeIdMap r)(node \<mapsto> nextNodeId r),
                       nextNodeId := nextNodeId r + 1\<rparr>
                else r)
      in (case nodeIdMap r' node of Some i \<Rightarrow> i | None \<Rightarrow> 0, r'))"

text \<open>\<^verbatim>\<open>nodes.map(node => this.getNodeId(node))\<close>, threading the registry from left to right.\<close>

fun getNodeIds :: "'n list \<Rightarrow> ('n, 'x) registry_scheme \<Rightarrow> nat list \<times> ('n, 'x) registry_scheme" where
  "getNodeIds [] r = ([], r)"
| "getNodeIds (n # ns) r =
     (let (i, r1) = getNodeId n r; (is, r2) = getNodeIds ns r1 in (i # is, r2))"

section \<open>Events\<close>

text \<open>The \<^verbatim>\<open>EventType\<close> and \<^verbatim>\<open>MutationType\<close> enumerations of the shared constants.\<close>

datatype EventType =
    DOM_SNAPSHOT | DOM_MUTATION | MOUSE_MOVE | MOUSE_CLICK | SCROLL | INPUT
  | RESIZE | PAGE_LOAD | PAGE_TRANSITION | SESSION_START | SESSION_END

fun EventType_code :: "EventType \<Rightarrow> nat" where
  "EventType_code DOM_SNAPSHOT = 0"
| "EventType_code DOM_MUTATION = 1"
| "EventType_code MOUSE_MOVE = 2"
| "EventType_code MOUSE_CLICK = 3"
| "EventType_code SCROLL = 4"
| "EventType_code INPUT = 5"
| "EventType_code RESIZE = 6"
| "EventType_code PAGE_LOAD = 7"
| "EventType_code PAGE_TRANSITION = 8"
| "EventType_code SESSION_START = 9"
| "EventType_code SESSION_END = 10"

text \<open>
  A node handed to the recorder: a node of the current document, by its path, or a
  node that is no longer attached, by an opaque identity.
\<close>

datatype noderef = Attached "nat list" | Detached nat

text \<open>The \<^verbatim>\<open>data\<close> of an event, by the code that builds it.\<close>

datatype mutation_payload =
    CHILD_LIST "(nat \<times> snode option) list" "nat list"
  | ATTRIBUTES "string option" "string option" "string option"
  | CHARACTER_DATA "string option" string

datatype event_data =
    SnapshotData "snode option" string string
  | MutationData nat string mutation_payload
  | PageLoadData string string string
  | PageTransitionData string string string string
  | SessionStartData string string string
  | SessionEndData string nat
  | SessionEndUnload string
  | OtherData string

record event =
  ev_type :: EventType
  ev_timestamp :: int
  ev_sessionId :: "string option"
  ev_data :: event_data

section \<open>DOMRecorder: exclusion, snapshot and mutations\<close>

record dom_recorder = "noderef registry" +
  excludeAttribute :: string
  observer :: bool

text \<open>
  The loop shared by \<^verbatim>\<open>DOMRecorder.isExcluded\<close> and \<^verbatim>\<open>InputRecorder.isExcluded\<close>: walk
  up through \<^verbatim>\<open>parentElement\<close> while the current node is an element, and answer true
  at the first one that has the exclusion attribute.
\<close>

function isExcluded_loop :: "string \<Rightarrow> dnode \<Rightarrow> nat list \<Rightarrow> bool" where
  "isExcluded_loop attr doc cur =
     (case node_at doc cur of
        None \<Rightarrow> False
      | Some n \<Rightarrow>
          if nodeType n \<noteq> 1 then False
          else if hasAttribute (attributesOf n) attr then True
          else if cur = [] then False
          else isExcluded_loop attr doc (butlast cur))"
  by pat_completeness auto
termination
  by (relation "measure (\<lambda>(attr, doc, cur). length cur)") auto

text \<open>\<^verbatim>\<open>DOMRecorder.isExcluded\<close>: false at once for a node that is not an element.\<close>

definition isExcluded :: "string \<Rightarrow> dnode \<Rightarrow> nat list \<Rightarrow> bool" where
  "isExcluded attr doc el =
     (if \<not> isElementAt doc el then False else isExcluded_loop attr doc el)"

text \<open>\<^verbatim>\<open>InputRecorder.isExcluded\<close>: only a missing element is refused before the loop.\<close>

definition InputRecorder_isExcluded :: "string \<Rightarrow> dnode \<Rightarrow> nat list \<Rightarrow> bool" where
  "InputRecorder_isExcluded attr doc el =
     (case node_at doc el of None \<Rightarrow> False | Some n \<Rightarrow> isExcluded_loop attr doc el)"

text \<open>
  \<^verbatim>\<open>captureSnapshot\<close> collects every element that has the exclusion attribute and all
  its descendant elements, and serializes the root against that set. Of the event's
  data the model keeps \<^verbatim>\<open>html\<close>, \<^verbatim>\<open>url\<close> and \<^verbatim>\<open>title\<close>; the doctype, viewport and scroll
  fields are copied from the window and play no part here. \<open>now\<close> is \<^verbatim>\<open>Date.now()\<close>.
\<close>

definition excludedElements :: "string \<Rightarrow> dnode \<Rightarrow> nat list set" where
  "excludedElements attr doc =
     set (concat (map (\<lambda>el. el # querySelectorAll_star doc el) (querySelectorAll_attr doc attr)))"

definition captureSnapshot :: "int \<Rightarrow> string \<Rightarrow> string \<Rightarrow> dnode \<Rightarrow> dom_recorder \<Rightarrow> event" where
  "captureSnapshot now url title doc r =
     \<lparr>ev_type = DOM_SNAPSHOT, ev_timestamp = now, ev_sessionId = None,
      ev_data = SnapshotData (serializeNode_at doc (excludedElements (excludeAttribute r) doc) [])
                             url title\<rparr>"

text \<open>
  A mutation record as the observer delivers it. The target and the added nodes are
  nodes of the document as it stands when the callback runs; removed nodes are only
  asked for their identifier.
\<close>

datatype MutationKind = childList | attributes | characterData

record mutation_record =
  m_type :: MutationKind
  m_target :: "nat list"
  m_addedNodes :: "nat list list"
  m_removedNodes :: "noderef list"
  m_attributeName :: "string option"
  m_oldValue :: "string option"

text \<open>
  \<^verbatim>\<open>.map(node => ({ id: this.getNodeId(node), node: serializeNode(node) }))\<close>: the
  serializer is called with one argument, so its set of excluded elements is empty.
\<close>

fun addedNodeEntries ::
  "dnode \<Rightarrow> nat list list \<Rightarrow> dom_recorder \<Rightarrow> (nat \<times> snode option) list \<times> dom_recorder" where
  "addedNodeEntries doc [] r = ([], r)"
| "addedNodeEntries doc (p # ps) r =
     (let (i, r1) = getNodeId (Attached p) r;
          sn = serializeNode_at doc {} p;
          (rest, r2) = addedNodeEntries doc ps r1
      in ((i, sn) # rest, r2))"

text \<open>One turn of the loop of \<^verbatim>\<open>processMutations\<close>: the event pushed, if any.\<close>

definition processMutation ::
  "int \<Rightarrow> (string \<Rightarrow> string) \<Rightarrow> dnode \<Rightarrow> mutation_record \<Rightarrow> dom_recorder
     \<Rightarrow> event option \<times> dom_recorder" where
  "processMutation now esc doc m r =
     (if isElementAt doc (m_target m) \<and> isExcluded (excludeAttribute r) doc (m_target m)
      then (None, r)
      else
        (let (targetId, r1) = getNodeId (Attached (m_target m)) r;
             targetSelector = getSelector esc doc (m_target m);
             mk = (\<lambda>payload. \<lparr>ev_type = DOM_MUTATION, ev_timestamp = now, ev_sessionId = None,
                               ev_data = MutationData targetId targetSelector payload\<rparr>)
         in case m_type m of
              childList \<Rightarrow>
                (let added = filter (\<lambda>node. if isElementAt doc node
                                             then \<not> isExcluded (excludeAttribute r) doc node
                                             else True) (m_addedNodes m);
                     (entries, r2) = addedNodeEntries doc added r1;
                     (removed, r3) = getNodeIds (m_removedNodes m) r2
                 in (Some (mk (CHILD_LIST entries removed)), r3))
            | attributes \<Rightarrow>
                (Some (mk (ATTRIBUTES (m_attributeName m) (m_oldValue m)
                            (case (node_at doc (m_target m), m_attributeName m) of
                               (Some n, Some a) \<Rightarrow> getAttribute (attributesOf n) a
                             | _ \<Rightarrow> None))), r1)
            | characterData \<Rightarrow>
                (Some (mk (CHARACTER_DATA (m_oldValue m)
                            (case node_at doc (m_target m) of
                               Some n \<Rightarrow> textContent n
                             | None \<Rightarrow> []))), r1)))"

text \<open>\<^verbatim>\<open>processMutations\<close>: the events handed to \<^verbatim>\<open>onEvent\<close>, in order.\<close>

fun processMutations ::
  "int \<Rightarrow> (string \<Rightarrow> string) \<Rightarrow> dnode \<Rightarrow> mutation_record list \<Rightarrow> dom_recorder
     \<Rightarrow> event list \<times> dom_recorder" where
  "processMutations now esc doc [] r = ([], r)"
| "processMutations now esc doc (m # ms) r =
     (let (e, r1) = processMutation now esc doc m r;
          (es, r2) = processMutations now esc doc ms r1
      in ((case e of None \<Rightarrow> es | Some ev \<Rightarrow> ev # es), r2))"

section \<open>InputRecorder: the redaction policy\<close>

definition SENSITIVE_INPUT_TYPES :: "string list" where
  "SENSITIVE_INPUT_TYPES =
     [''password'', ''email'', ''tel'', ''credit-card'', ''cc-number'', ''cc-exp'', ''cc-csc'']"

text \<open>
  The sensitive name patterns are case-insensitive regular expressions of two shapes:
  a literal word, found anywhere in the subject, and \<^verbatim>\<open>/social.*security/i\<close>, one word
  followed on the same line by another.
\<close>

datatype name_pattern = Word string | WordThenWord string string

definition SENSITIVE_NAME_PATTERNS :: "name_pattern list" where
  "SENSITIVE_NAME_PATTERNS =
     [Word ''password'', Word ''passwd'', Word ''credit'', Word ''card'', Word ''cvv'',
      Word ''cvc'', Word ''ssn'', WordThenWord ''social'' ''security'', Word ''secret'',
      Word ''token'']"

definition isLineTerminator :: "char \<Rightarrow> bool" where
  "isLineTerminator c = (let n = (of_char c :: nat) in n = 10 \<or> n = 13)"

fun wordThenWord :: "string \<Rightarrow> string \<Rightarrow> string \<Rightarrow> bool" where
  "wordThenWord a b [] = (a = [] \<and> b = [])"
| "wordThenWord a b (x # xs) =
     ((startsWith (x # xs) a \<and>
       str_includes (takeWhile (\<lambda>c. \<not> isLineTerminator c) (drop (length a) (x # xs))) b)
      \<or> wordThenWord a b xs)"

fun pattern_test :: "name_pattern \<Rightarrow> string \<Rightarrow> bool" where
  "pattern_test (Word w) s = str_includes (toLowerCase s) w"
| "pattern_test (WordThenWord a b) s = wordThenWord a b (toLowerCase s)"

text \<open>
  What \<^verbatim>\<open>shouldMask\<close> reads of a form control: whether it is an \<^verbatim>\<open>input\<close> element, its
  \<^verbatim>\<open>type\<close>, \<^verbatim>\<open>autocomplete\<close> (which may be undefined), \<^verbatim>\<open>name\<close>, \<^verbatim>\<open>id\<close> and \<^verbatim>\<open>placeholder\<close>
  properties (empty when absent) and its attributes.
\<close>

record form_control =
  fc_isInputElement :: bool
  fc_type :: string
  fc_autocomplete :: "string option"
  fc_name :: string
  fc_id :: string
  fc_placeholder :: string
  fc_attributes :: "(string \<times> string) list"

record input_recorder =
  maskAllInputs :: bool
  maskSensitiveInputs :: bool
  ir_excludeAttribute :: string

definition shouldMask :: "input_recorder \<Rightarrow> form_control \<Rightarrow> bool" where
  "shouldMask r element =
     (if maskAllInputs r then True
      else if \<not> maskSensitiveInputs r then False
      else if fc_isInputElement element \<and>
              List.member SENSITIVE_INPUT_TYPES (toLowerCase (fc_type element)) then True
      else if fc_isInputElement element \<and>
              list_ex (\<lambda>t. str_includes
                             (case fc_autocomplete element of
                                Some a \<Rightarrow> toLowerCase a
                              | None \<Rightarrow> []) t)
                      SENSITIVE_INPUT_TYPES then True
      else if list_ex (\<lambda>pattern. pattern_test pattern (fc_name element) \<or>
                                  pattern_test pattern (fc_id element) \<or>
                                  pattern_test pattern (fc_placeholder element))
                      SENSITIVE_NAME_PATTERNS then True
      else if hasAttribute (fc_attributes element) ''data-ym-mask'' then True
      else False)"

section \<open>InputRecorder: the masking transform\<close>

text \<open>
  \<^verbatim>\<open>maskValue(value) { if (!value) return ''; return '*'.repeat(Math.min(value.length, 20)); }\<close>
  A string is falsy exactly when it is empty.
\<close>

definition maskValue :: "string \<Rightarrow> string" where
  "maskValue v = (if v = [] then [] else replicate (min (length v) 20) (CHR ''*''))"

section \<open>NavigationRecorder\<close>

text \<open>
  An excluded-page pattern is a \<^verbatim>\<open>RegExp\<close> object, which the recorder only uses through
  \<^verbatim>\<open>test\<close>. A pattern made from a string has no flags; one handed in as an object may
  have the \<^verbatim>\<open>g\<close> or \<^verbatim>\<open>y\<close> flag, and then \<^verbatim>\<open>test\<close> starts at \<^verbatim>\<open>lastIndex\<close> and moves it.
  \<open>re_exec r s i\<close> is the matcher of the pattern: the index just after the match
  it finds in \<open>s\<close> when the search starts at \<open>i\<close>, if it finds one.
\<close>

record regexp =
  re_exec :: "string \<Rightarrow> nat \<Rightarrow> nat option"
  re_global :: bool
  re_sticky :: bool
  re_lastIndex :: nat

text \<open>
  \<^verbatim>\<open>RegExp.prototype.test\<close>: without \<^verbatim>\<open>g\<close> and \<^verbatim>\<open>y\<close> the search starts at 0 and
  \<^verbatim>\<open>lastIndex\<close> is left alone; with one of them it starts at \<^verbatim>\<open>lastIndex\<close>, which becomes
  the end of the match, or 0 when there is none.
\<close>

definition regexp_test :: "regexp \<Rightarrow> string \<Rightarrow> bool \<times> regexp" where
  "regexp_test r s =
     (let keeps = (re_global r \<or> re_sticky r);
          lastIndex = (if keeps then re_lastIndex r else 0)
      in if lastIndex > length s then (False, if keeps then r\<lparr>re_lastIndex := 0\<rparr> else r)
         else (case re_exec r s lastIndex of
                 None \<Rightarrow> (False, if keeps then r\<lparr>re_lastIndex := 0\<rparr> else r)
               | Some e \<Rightarrow> (True, if keeps then r\<lparr>re_lastIndex := e\<rparr> else r)))"

text \<open>\<^verbatim>\<open>patterns.some(pattern => pattern.test(url))\<close>: the patterns are tried in order up to the first that matches.\<close>

fun some_test :: "regexp list \<Rightarrow> string \<Rightarrow> bool \<times> regexp list" where
  "some_test [] url = (False, [])"
| "some_test (pattern # patterns) url =
     (let (found, pattern1) = regexp_test pattern url
      in if found then (True, pattern1 # patterns)
         else (let (found1, patterns1) = some_test patterns url
               in (found1, pattern1 # patterns1)))"

record navigation_recorder =
  excludePages :: "regexp list"
  currentUrl :: string
  nav_isRecording :: bool

definition isExcludedPage :: "navigation_recorder \<Rightarrow> string \<Rightarrow> bool \<times> navigation_recorder" where
  "isExcludedPage n url =
     (let (found, patterns1) = some_test (excludePages n) url
      in (found, n\<lparr>excludePages := patterns1\<rparr>))"

text \<open>
  \<^verbatim>\<open>recordPageLoad\<close> and \<^verbatim>\<open>recordTransition\<close>; \<open>href\<close> is \<^verbatim>\<open>window.location.href\<close> when
  the method runs. Each returns the event handed to \<^verbatim>\<open>onEvent\<close>, if any, and the
  recorder afterwards. The navigation timing of the page-load event is left out.
\<close>

definition recordPageLoad ::
  "int \<Rightarrow> string \<Rightarrow> string \<Rightarrow> string \<Rightarrow> navigation_recorder \<Rightarrow> event option \<times> navigation_recorder" where
  "recordPageLoad now href title referrer n =
     (let n1 = n\<lparr>currentUrl := href\<rparr>;
          (excluded, n2) = isExcludedPage n1 (currentUrl n1)
      in if excluded then (None, n2)
         else (Some \<lparr>ev_type = PAGE_LOAD, ev_timestamp = now, ev_sessionId = None,
                     ev_data = PageLoadData (currentUrl n2) title referrer\<rparr>, n2))"

definition recordTransition ::
  "int \<Rightarrow> string \<Rightarrow> string \<Rightarrow> string \<Rightarrow> navigation_recorder \<Rightarrow> event option \<times> navigation_recorder" where
  "recordTransition now href title trigger n =
     (let newUrl = href
      in if newUrl = currentUrl n then (None, n)
         else (let (excluded, n1) = isExcludedPage n newUrl
               in if excluded then (None, n1)
                  else (let previousUrl = currentUrl n1;
                            n2 = n1\<lparr>currentUrl := newUrl\<rparr>
                        in (Some \<lparr>ev_type = PAGE_TRANSITION, ev_timestamp = now,
                                   ev_sessionId = None,
                                   ev_data = PageTransitionData trigger previousUrl newUrl title\<rparr>,
                            n2))))"

text \<open>The matcher of a pattern that is a plain word: the first occurrence at or after the start.\<close>

fun search_from :: "string \<Rightarrow> string \<Rightarrow> nat \<Rightarrow> nat option" where
  "search_from word [] pos = (if word = [] then Some pos else None)"
| "search_from word (c # cs) pos =
     (if startsWith (c # cs) word then Some (pos + length word)
      else search_from word cs (Suc pos))"

definition literal_exec :: "string \<Rightarrow> string \<Rightarrow> nat \<Rightarrow> nat option" where
  "literal_exec word s i = (if i \<le> length s then search_from word (drop i s) i else None)"

section \<open>Webvisor: the session controller and its send queue\<close>

text \<open>
  The controller's fields. \<open>batchSize\<close> is the configured number of events per batch;
  \<open>batchTimer\<close> tells whether the interval timer is set; the four recorder flags tell
  whether each capture channel is started.
\<close>

record webvisor =
  batchSize :: nat
  wv_sessionId :: "string option"
  events :: "event list"
  isRecording :: bool
  isSampled :: bool
  sendQueue :: "event list"
  batchTimer :: bool
  domRecorder_on :: bool
  interactionRecorder_on :: bool
  inputRecorder_on :: bool
  navigationRecorder_on :: bool

text \<open>The outcome of \<^verbatim>\<open>fetch\<close>: a response with its \<^verbatim>\<open>ok\<close> flag and status, or a rejection.\<close>

datatype fetch_result = Response bool nat | Rejected string

text \<open>
  \<^verbatim>\<open>sendBatch\<close> is asynchronous. Up to the \<^verbatim>\<open>await\<close> it runs at once: it returns when the
  queue is empty, and otherwise takes the batch off the head of the queue with
  \<^verbatim>\<open>splice(0, batchSize)\<close> and issues the request (\<open>sendBatch_begin\<close>, which returns
  the batch in flight). When the request settles, the rest runs against the queue as
  it is by then (\<open>sendBatch_settle\<close>).
\<close>

definition sendBatch_begin :: "webvisor \<Rightarrow> event list option \<times> webvisor" where
  "sendBatch_begin w =
     (if length (sendQueue w) = 0 then (None, w)
      else (Some (take (batchSize w) (sendQueue w)),
            w\<lparr>sendQueue := drop (batchSize w) (sendQueue w)\<rparr>))"

definition sendBatch_settle :: "fetch_result \<Rightarrow> event list \<Rightarrow> webvisor \<Rightarrow> webvisor" where
  "sendBatch_settle res batch w =
     (case res of
        Response ok status \<Rightarrow> if \<not> ok then w\<lparr>sendQueue := batch @ sendQueue w\<rparr> else w
      | Rejected message \<Rightarrow> w\<lparr>sendQueue := batch @ sendQueue w\<rparr>)"

text \<open>\<^verbatim>\<open>await this.sendBatch()\<close> with nothing running in between.\<close>

definition sendBatch :: "fetch_result \<Rightarrow> webvisor \<Rightarrow> webvisor" where
  "sendBatch res w =
     (case sendBatch_begin w of
        (None, w1) \<Rightarrow> w1
      | (Some batch, w1) \<Rightarrow> sendBatch_settle res batch w1)"

text \<open>
  \<^verbatim>\<open>handleEvent\<close>: nothing unless recording; otherwise the event gets the session id and
  is pushed on \<^verbatim>\<open>events\<close> and on \<^verbatim>\<open>sendQueue\<close>, and a full queue starts a flush that is not
  awaited. The result names the batch that flush put in flight, if any.
\<close>

definition handleEvent :: "event \<Rightarrow> webvisor \<Rightarrow> event list option \<times> webvisor" where
  "handleEvent e w =
     (if \<not> isRecording w then (None, w)
      else
        (let e1 = e\<lparr>ev_sessionId := wv_sessionId w\<rparr>;
             w1 = w\<lparr>events := events w @ [e1]\<rparr>;
             w2 = w1\<lparr>sendQueue := sendQueue w1 @ [e1]\<rparr>
         in if length (sendQueue w2) \<ge> batchSize w2 then sendBatch_begin w2 else (None, w2)))"

text \<open>
  Events arriving one after another while a request is in flight: the batches their
  flushes put in flight, and the controller afterwards.
\<close>

fun handleEvents :: "event list \<Rightarrow> webvisor \<Rightarrow> event list list \<times> webvisor" where
  "handleEvents [] w = ([], w)"
| "handleEvents (e # es) w =
     (let (b, w1) = handleEvent e w; (bs, w2) = handleEvents es w1
      in ((case b of None \<Rightarrow> bs | Some batch \<Rightarrow> batch # bs), w2))"

definition stopBatchTimer :: "webvisor \<Rightarrow> webvisor" where
  "stopBatchTimer w = (if batchTimer w then w\<lparr>batchTimer := False\<rparr> else w)"

text \<open>
  \<^verbatim>\<open>stop\<close>; \<open>now\<close> and \<open>href\<close> are \<^verbatim>\<open>Date.now()\<close> and \<^verbatim>\<open>window.location.href\<close>, \<open>res\<close> the
  outcome of the final request.
\<close>

definition stop :: "int \<Rightarrow> string \<Rightarrow> fetch_result \<Rightarrow> webvisor \<Rightarrow> webvisor" where
  "stop now href res w =
     (if \<not> isRecording w then w
      else
        (let w1 = w\<lparr>isRecording := False\<rparr>;
             w2 = snd (handleEvent
                         \<lparr>ev_type = SESSION_END, ev_timestamp = now, ev_sessionId = None,
                          ev_data = SessionEndData href (length (events w1))\<rparr> w1);
             w3 = w2\<lparr>domRecorder_on := False, interactionRecorder_on := False,
                     inputRecorder_on := False, navigationRecorder_on := False\<rparr>;
             w4 = stopBatchTimer w3
         in sendBatch res w4))"

text \<open>
  \<^verbatim>\<open>stop\<close> up to its \<^verbatim>\<open>await\<close>: everything it does at once, the final flush started
  and its request in flight.
\<close>

definition stop_begin :: "int \<Rightarrow> string \<Rightarrow> webvisor \<Rightarrow> event list option \<times> webvisor" where
  "stop_begin now href w =
     (if \<not> isRecording w then (None, w)
      else
        (let w1 = w\<lparr>isRecording := False\<rparr>;
             w2 = snd (handleEvent
                         \<lparr>ev_type = SESSION_END, ev_timestamp = now, ev_sessionId = None,
                          ev_data = SessionEndData href (length (events w1))\<rparr> w1);
             w3 = w2\<lparr>domRecorder_on := False, interactionRecorder_on := False,
                     inputRecorder_on := False, navigationRecorder_on := False\<rparr>;
             w4 = stopBatchTimer w3
         in sendBatch_begin w4))"

definition startBatchTimer :: "webvisor \<Rightarrow> webvisor" where
  "startBatchTimer w = (if batchTimer w then w else w\<lparr>batchTimer := True\<rparr>)"

text \<open>
  What \<^verbatim>\<open>start\<close> reads from its surroundings: whether the page is excluded, the
  sampling decision, the session id generated, the clock and the page's URL, title
  and referrer, the snapshot event the DOM recorder hands over and the page-load
  event of the navigation recorder, if it emits one.
\<close>

record start_env =
  env_pageExcluded :: bool
  env_sampled :: bool
  env_sessionId :: string
  env_now :: int
  env_href :: string
  env_title :: string
  env_referrer :: string
  env_snapshot :: event
  env_pageLoad :: "event option"

text \<open>
  \<^verbatim>\<open>start\<close>: its result, the batches put in flight by the events it records, and the
  controller afterwards.
\<close>

definition start :: "start_env \<Rightarrow> webvisor \<Rightarrow> bool \<times> event list list \<times> webvisor" where
  "start env w =
     (if isRecording w then (False, [], w)
      else if env_pageExcluded env then (False, [], w)
      else
        (let w1 = w\<lparr>isSampled := env_sampled env\<rparr>
         in if \<not> isSampled w1 then (False, [], w1)
            else
              (let w2 = w1\<lparr>wv_sessionId := Some (env_sessionId env)\<rparr>;
                   w3 = w2\<lparr>isRecording := True\<rparr>;
                   (started1, w4) =
                      handleEvents
                        [\<lparr>ev_type = SESSION_START, ev_timestamp = env_now env, ev_sessionId = None,
                          ev_data = SessionStartData (env_href env) (env_title env)
                                      (env_referrer env)\<rparr>,
                         env_snapshot env] w3;
                   w5 = w4\<lparr>domRecorder_on := True, interactionRecorder_on := True,
                           inputRecorder_on := True, navigationRecorder_on := True\<rparr>;
                   (started2, w6) =
                      handleEvents (case env_pageLoad env of None \<Rightarrow> [] | Some e \<Rightarrow> [e]) w5
               in (True, started1 @ started2, startBatchTimer w6))))"

text \<open>
  What can happen to the controller while a request is in flight, short of another
  flush putting its batch back: an event arrives from a recorder; a flush starts, by
  the timer or on unload; another flush's request succeeds; \<^verbatim>\<open>stop\<close> runs up to its
  \<^verbatim>\<open>await\<close>; \<^verbatim>\<open>start\<close> runs; the timer is started or stopped. A step gives the batches
  it put in flight and the controller afterwards.
\<close>

datatype in_flight =
    Arrives event
  | FlushStarts
  | FlushSucceeds "event list" nat
  | Stops int string
  | Starts start_env
  | TimerStarts
  | TimerStops

fun in_flight_step :: "in_flight \<Rightarrow> webvisor \<Rightarrow> event list list \<times> webvisor" where
  "in_flight_step (Arrives e) w =
     (case handleEvent e w of (None, w1) \<Rightarrow> ([], w1) | (Some batch, w1) \<Rightarrow> ([batch], w1))"
| "in_flight_step FlushStarts w =
     (case sendBatch_begin w of (None, w1) \<Rightarrow> ([], w1) | (Some batch, w1) \<Rightarrow> ([batch], w1))"
| "in_flight_step (FlushSucceeds batch status) w =
     ([], sendBatch_settle (Response True status) batch w)"
| "in_flight_step (Stops now href) w =
     (case stop_begin now href w of (None, w1) \<Rightarrow> ([], w1) | (Some batch, w1) \<Rightarrow> ([batch], w1))"
| "in_flight_step (Starts env) w = snd (start env w)"
| "in_flight_step TimerStarts w = ([], startBatchTimer w)"
| "in_flight_step TimerStops w = ([], stopBatchTimer w)"

fun in_flight_run :: "in_flight list \<Rightarrow> webvisor \<Rightarrow> event list list \<times> webvisor" where
  "in_flight_run [] w = ([], w)"
| "in_flight_run (a # as) w =
     (let (started1, w1) = in_flight_step a w; (started2, w2) = in_flight_run as w1
      in (started1 @ started2, w2))"

section \<open>SessionStore: sessions as files\<close>

text \<open>
  The file store keeps one JSON file per session. A file holds the JSON of a session
  object, whose \<^verbatim>\<open>events\<close> array can be pushed to, or some other JSON value, or
  text that does not parse. Reading a file that exists and writing any file succeed. \<open>path_join\<close> stands for \<^verbatim>\<open>join\<close> of \<^verbatim>\<open>node:path\<close>.
\<close>

record ('e, 'm) session_file =
  sf_sessionId :: string
  sf_meta :: 'm
  sf_events :: "'e list"
  sf_createdAt :: int
  sf_updatedAt :: int

datatype ('e, 'm) file_content =
  SessionJson "('e, 'm) session_file" | OtherJson string | NotJson string

record ('e, 'm) filesystem =
  files :: "string \<rightharpoonup> ('e, 'm) file_content"
  directories :: "string set"

record session_store =
  storagePath :: string
  retentionDays :: nat
  initialized :: bool

text \<open>\<^verbatim>\<open>init\<close>: creates the storage directory once; the hourly cleanup timer is left out.\<close>

definition init ::
  "session_store \<Rightarrow> ('e, 'm) filesystem \<Rightarrow> session_store \<times> ('e, 'm) filesystem" where
  "init st fs =
     (if initialized st then (st, fs)
      else (st\<lparr>initialized := True\<rparr>,
            if storagePath st \<notin> directories fs
            then fs\<lparr>directories := insert (storagePath st) (directories fs)\<rparr> else fs))"

text \<open>The character class \<^verbatim>\<open>[a-zA-Z0-9_-]\<close>.\<close>

definition isSafeIdChar :: "char \<Rightarrow> bool" where
  "isSafeIdChar c =
     (let n = (of_char c :: nat)
      in (97 \<le> n \<and> n \<le> 122) \<or> (65 \<le> n \<and> n \<le> 90) \<or> (48 \<le> n \<and> n \<le> 57)
         \<or> n = 95 \<or> n = 45)"

text \<open>\<^verbatim>\<open>sessionId.replace(/[^a-zA-Z0-9_-]/g, '')\<close>\<close>

definition safeId :: "string \<Rightarrow> string" where
  "safeId sessionId = filter isSafeIdChar sessionId"

definition getSessionPath :: "(string \<Rightarrow> string \<Rightarrow> string) \<Rightarrow> session_store \<Rightarrow> string \<Rightarrow> string" where
  "getSessionPath path_join st sessionId = path_join (storagePath st) (safeId sessionId @ ''.json'')"

text \<open>
  \<^verbatim>\<open>storeEvents\<close>: reading or parsing may throw, and so may the push when the file is
  not a session; each lands in the \<^verbatim>\<open>catch\<close>, which starts a new session. The result
  is the session written, with the store and the file system afterwards.
\<close>

definition storeEvents ::
  "(string \<Rightarrow> string \<Rightarrow> string) \<Rightarrow> int \<Rightarrow> string \<Rightarrow> 'e list \<Rightarrow> 'm
     \<Rightarrow> session_store \<Rightarrow> ('e, 'm) filesystem
     \<Rightarrow> ('e, 'm) session_file \<times> session_store \<times> ('e, 'm) filesystem" where
  "storeEvents path_join now sessionId evs meta st fs =
     (let (st1, fs1) = init st fs;
          filePath = getSessionPath path_join st1 sessionId;
          session =
            (case files fs1 filePath of
               Some (SessionJson existing) \<Rightarrow>
                 existing\<lparr>sf_events := sf_events existing @ evs, sf_updatedAt := now\<rparr>
             | _ \<Rightarrow>
                 \<lparr>sf_sessionId = sessionId, sf_meta = meta, sf_events = evs,
                  sf_createdAt = now, sf_updatedAt = now\<rparr>)
      in (session, st1, fs1\<lparr>files := (files fs1)(filePath \<mapsto> SessionJson session)\<rparr>))"

definition getSession ::
  "(string \<Rightarrow> string \<Rightarrow> string) \<Rightarrow> string \<Rightarrow> session_store \<Rightarrow> ('e, 'm) filesystem
     \<Rightarrow> ('e, 'm) file_content option \<times> session_store \<times> ('e, 'm) filesystem" where
  "getSession path_join sessionId st fs =
     (let (st1, fs1) = init st fs;
          filePath = getSessionPath path_join st1 sessionId
      in (case files fs1 filePath of
            Some (NotJson t) \<Rightarrow> None
          | Some parsed \<Rightarrow> Some parsed
          | None \<Rightarrow> None, st1, fs1))"

definition deleteSession ::
  "(string \<Rightarrow> string \<Rightarrow> string) \<Rightarrow> string \<Rightarrow> session_store \<Rightarrow> ('e, 'm) filesystem
     \<Rightarrow> bool \<times> ('e, 'm) filesystem" where
  "deleteSession path_join sessionId st fs =
     (let filePath = getSessionPath path_join st sessionId
      in (case files fs filePath of
            Some content \<Rightarrow> (True, fs\<lparr>files := (files fs)(filePath := None)\<rparr>)
          | None \<Rightarrow> (False, fs)))"


section \<open>PostgresStore: sessions as rows\<close>

text \<open>
  The three tables of \<^verbatim>\<open>createTables\<close>, a row per record, and the \<^verbatim>\<open>SERIAL\<close> counters
  that number them. Timestamps are milliseconds; \<open>None\<close> is SQL \<^verbatim>\<open>NULL\<close>.
\<close>

record visitor_row =
  v_id :: nat
  v_fingerprint :: string
  v_ip_address :: "string option"
  v_screen_width :: "int option"
  v_screen_height :: "int option"
  v_user_agent :: "string option"
  v_language :: "string option"
  v_timezone :: "string option"
  v_first_seen :: int
  v_last_seen :: int
  v_visit_count :: int

record session_row =
  s_id :: nat
  s_session_id :: string
  s_visitor_id :: "nat option"
  s_fingerprint :: "string option"
  s_ip_address :: "string option"
  s_url :: "string option"
  s_title :: "string option"
  s_referrer :: "string option"
  s_user_agent :: "string option"
  s_screen_width :: "int option"
  s_screen_height :: "int option"
  s_viewport_width :: "int option"
  s_viewport_height :: "int option"
  s_created_at :: int
  s_updated_at :: int
  s_event_count :: int

record event_row =
  e_id :: nat
  e_session_id :: string
  e_event_type :: int
  e_timestamp :: int
  e_data :: string
  e_created_at :: int

record database =
  visitors :: "visitor_row list"
  sessions :: "session_row list"
  event_rows :: "event_row list"
  visitors_seq :: nat
  sessions_seq :: nat
  events_seq :: nat

text \<open>
  What a batch carries: the \<^verbatim>\<open>meta\<close> object, with absent or falsy fields as \<open>None\<close>,
  and events with their \<^verbatim>\<open>type\<close>, \<^verbatim>\<open>timestamp\<close> and the JSON text of a truthy \<^verbatim>\<open>data\<close>.
\<close>

record batch_meta =
  meta_url :: "string option"
  meta_title :: "string option"
  meta_referrer :: "string option"
  meta_userAgent :: "string option"
  meta_language :: "string option"
  meta_timezone :: "string option"
  meta_screen :: "(int option \<times> int option) option"
  meta_viewport :: "(int option \<times> int option) option"

record wire_event =
  we_type :: "int option"
  we_timestamp :: "int option"
  we_data :: "string option"

text \<open>A statement that the database refuses raises; the transaction is then rolled back.\<close>

datatype db_error = ValueTooLong | NotNullViolation | OutOfRange

definition fits_varchar :: "nat \<Rightarrow> string option \<Rightarrow> bool" where
  "fits_varchar n v = (case v of None \<Rightarrow> True | Some s \<Rightarrow> length s \<le> n)"

definition fits_integer :: "int option \<Rightarrow> bool" where
  "fits_integer v = (case v of None \<Rightarrow> True | Some i \<Rightarrow> - (2 ^ 31) \<le> i \<and> i < 2 ^ 31)"

definition fits_bigint :: "int option \<Rightarrow> bool" where
  "fits_bigint v = (case v of None \<Rightarrow> True | Some i \<Rightarrow> - (2 ^ 63) \<le> i \<and> i < 2 ^ 63)"

text \<open>\<^verbatim>\<open>x || null\<close> and \<^verbatim>\<open>x || 0\<close> on a number or a string that may be absent.\<close>

definition num_or_null :: "int option \<Rightarrow> int option" where
  "num_or_null v = (case v of Some i \<Rightarrow> if i = 0 then None else Some i | None \<Rightarrow> None)"

definition num_or_zero :: "int option \<Rightarrow> int" where
  "num_or_zero v = (case v of Some i \<Rightarrow> i | None \<Rightarrow> 0)"

definition str_or_null :: "string option \<Rightarrow> string option" where
  "str_or_null v = (case v of Some s \<Rightarrow> if s = [] then None else Some s | None \<Rightarrow> None)"

definition width_of :: "(int option \<times> int option) option \<Rightarrow> int option" where
  "width_of scr = (case scr of Some (w, h) \<Rightarrow> w | None \<Rightarrow> None)"

definition height_of :: "(int option \<times> int option) option \<Rightarrow> int option" where
  "height_of scr = (case scr of Some (w, h) \<Rightarrow> h | None \<Rightarrow> None)"

text \<open>
  \<^verbatim>\<open>generateFingerprint\<close>: the parts joined with a bar, hashed by
  \<^verbatim>\<open>hash = ((hash << 5) - hash) + char; hash = hash & hash\<close>, which is arithmetic on
  32-bit words, and the absolute value of the signed result written in base 36.
\<close>

definition string_of_int :: "int \<Rightarrow> string" where
  "string_of_int i =
     (if 0 \<le> i then string_of_nat (nat i) else CHR ''-'' # string_of_nat (nat (- i)))"

definition digit36 :: "nat \<Rightarrow> char" where
  "digit36 d = (if d < 10 then char_of (48 + d) else char_of (87 + d))"

function toString36 :: "int \<Rightarrow> string" where
  "toString36 n =
     (if n < 36 then [digit36 (nat n)]
      else toString36 (n div 36) @ [digit36 (nat (n mod 36))])"
  by pat_completeness auto
termination
  by (relation "measure nat") auto

definition hash_step :: "32 word \<Rightarrow> char \<Rightarrow> 32 word" where
  "hash_step hash c = (push_bit 5 hash - hash) + of_nat (of_char c)"

definition generateFingerprint :: "batch_meta \<Rightarrow> string option \<Rightarrow> string" where
  "generateFingerprint meta clientIP =
     (let str = string_of_int (num_or_zero (width_of (meta_screen meta))) @ ''|'' @
                string_of_int (num_or_zero (height_of (meta_screen meta))) @ ''|'' @
                (case str_or_null clientIP of Some ip \<Rightarrow> ip | None \<Rightarrow> ''unknown'');
          hash = foldl hash_step 0 str
      in ''fp_'' @ toString36 \<bar>sint hash\<bar>)"

text \<open>
  The visitor upsert: the proposed row is checked against the column types; a row
  with the fingerprint is updated, otherwise the row is inserted under the next id.
  The result is the visitor's id.
\<close>

definition upsert_visitor ::
  "int \<Rightarrow> string \<Rightarrow> string option \<Rightarrow> batch_meta \<Rightarrow> database \<Rightarrow> db_error + (nat \<times> database)" where
  "upsert_visitor now fingerprint clientIP meta db =
     (if \<not> (fits_varchar 64 (Some fingerprint) \<and> fits_varchar 45 clientIP \<and>
              fits_varchar 10 (str_or_null (meta_language meta)) \<and>
              fits_varchar 50 (str_or_null (meta_timezone meta))) then Inl ValueTooLong
      else if \<not> (fits_integer (num_or_null (width_of (meta_screen meta))) \<and>
                   fits_integer (num_or_null (height_of (meta_screen meta)))) then Inl OutOfRange
      else
        (case filter (\<lambda>v. v_fingerprint v = fingerprint) (visitors db) of
           [] \<Rightarrow>
             Inr (visitors_seq db,
                  db\<lparr>visitors := visitors db @
                        [\<lparr>v_id = visitors_seq db, v_fingerprint = fingerprint,
                          v_ip_address = clientIP,
                          v_screen_width = num_or_null (width_of (meta_screen meta)),
                          v_screen_height = num_or_null (height_of (meta_screen meta)),
                          v_user_agent = str_or_null (meta_userAgent meta),
                          v_language = str_or_null (meta_language meta),
                          v_timezone = str_or_null (meta_timezone meta),
                          v_first_seen = now, v_last_seen = now, v_visit_count = 1\<rparr>],
                      visitors_seq := visitors_seq db + 1\<rparr>)
         | old # others \<Rightarrow>
             if \<not> fits_integer (Some (v_visit_count old + 1)) then Inl OutOfRange
             else Inr (v_id old,
                       db\<lparr>visitors :=
                            map (\<lambda>v. if v_fingerprint v = fingerprint
                                      then v\<lparr>v_ip_address := (case clientIP of Some ip \<Rightarrow> Some ip
                                                                | None \<Rightarrow> v_ip_address v),
                                             v_last_seen := now,
                                             v_visit_count := v_visit_count v + 1\<rparr>
                                      else v) (visitors db)\<rparr>)))"

definition insert_session ::
  "int \<Rightarrow> string \<Rightarrow> nat option \<Rightarrow> string \<Rightarrow> string option \<Rightarrow> batch_meta \<Rightarrow> database
     \<Rightarrow> db_error + database" where
  "insert_session now sessionId visitorId fingerprint clientIP meta db =
     (if \<not> (fits_varchar 64 (Some sessionId) \<and> fits_varchar 64 (Some fingerprint) \<and>
              fits_varchar 45 clientIP) then Inl ValueTooLong
      else if \<not> (fits_integer (num_or_null (width_of (meta_screen meta))) \<and>
                   fits_integer (num_or_null (height_of (meta_screen meta))) \<and>
                   fits_integer (num_or_null (width_of (meta_viewport meta))) \<and>
                   fits_integer (num_or_null (height_of (meta_viewport meta)))) then Inl OutOfRange
      else Inr (db\<lparr>sessions := sessions db @
                     [\<lparr>s_id = sessions_seq db, s_session_id = sessionId, s_visitor_id = visitorId,
                       s_fingerprint = Some fingerprint, s_ip_address = clientIP,
                       s_url = str_or_null (meta_url meta), s_title = str_or_null (meta_title meta),
                       s_referrer = str_or_null (meta_referrer meta),
                       s_user_agent = str_or_null (meta_userAgent meta),
                       s_screen_width = num_or_null (width_of (meta_screen meta)),
                       s_screen_height = num_or_null (height_of (meta_screen meta)),
                       s_viewport_width = num_or_null (width_of (meta_viewport meta)),
                       s_viewport_height = num_or_null (height_of (meta_viewport meta)),
                       s_created_at = now, s_updated_at = now, s_event_count = 0\<rparr>],
                   sessions_seq := sessions_seq db + 1\<rparr>))"

definition insert_event :: "int \<Rightarrow> string \<Rightarrow> wire_event \<Rightarrow> database \<Rightarrow> db_error + database" where
  "insert_event now sessionId ev db =
     (if \<not> fits_varchar 64 (Some sessionId) then Inl ValueTooLong
      else (case (we_type ev, we_timestamp ev) of
              (Some ty, Some ts) \<Rightarrow>
                if \<not> (fits_integer (Some ty) \<and> fits_bigint (Some ts)) then Inl OutOfRange
                else Inr (db\<lparr>event_rows := event_rows db @
                               [\<lparr>e_id = events_seq db, e_session_id = sessionId, e_event_type = ty,
                                 e_timestamp = ts,
                                 e_data = (case we_data ev of Some j \<Rightarrow> j | None \<Rightarrow> ''{}''),
                                 e_created_at = now\<rparr>],
                             events_seq := events_seq db + 1\<rparr>)
            | _ \<Rightarrow> Inl NotNullViolation))"

fun insert_events :: "int \<Rightarrow> string \<Rightarrow> wire_event list \<Rightarrow> database \<Rightarrow> db_error + database" where
  "insert_events now sessionId [] db = Inr db"
| "insert_events now sessionId (ev # evs) db =
     (case insert_event now sessionId ev db of
        Inl err \<Rightarrow> Inl err
      | Inr db1 \<Rightarrow> insert_events now sessionId evs db1)"

definition update_event_count :: "int \<Rightarrow> string \<Rightarrow> nat \<Rightarrow> database \<Rightarrow> db_error + database" where
  "update_event_count now sessionId n db =
     (if list_ex (\<lambda>s. s_session_id s = sessionId \<and>
                       \<not> fits_integer (Some (s_event_count s + int n))) (sessions db)
      then Inl OutOfRange
      else Inr (db\<lparr>sessions :=
                     map (\<lambda>s. if s_session_id s = sessionId
                               then s\<lparr>s_event_count := s_event_count s + int n, s_updated_at := now\<rparr>
                               else s) (sessions db)\<rparr>))"

text \<open>
  \<^verbatim>\<open>PostgresStore.storeEvents\<close>, one transaction: \<open>Inr\<close> is the database after
  \<^verbatim>\<open>COMMIT\<close>; \<open>Inl\<close> is the error thrown after \<^verbatim>\<open>ROLLBACK\<close>, the database being as
  before. \<open>now\<close> is \<^verbatim>\<open>CURRENT_TIMESTAMP\<close>. The fingerprint is a non-empty string, so
  the visitor is always upserted.
\<close>

definition pg_storeEvents ::
  "int \<Rightarrow> string \<Rightarrow> wire_event list \<Rightarrow> batch_meta \<Rightarrow> string option \<Rightarrow> database
     \<Rightarrow> db_error + database" where
  "pg_storeEvents now sessionId evs meta clientIP db =
     (let fingerprint = generateFingerprint meta clientIP
      in case (if fingerprint \<noteq> []
               then (case upsert_visitor now fingerprint clientIP meta db of
                       Inl err \<Rightarrow> Inl err
                     | Inr (vid, db1) \<Rightarrow> Inr (Some vid, db1))
               else Inr (None, db)) of
           Inl err \<Rightarrow> Inl err
         | Inr (visitorId, db1) \<Rightarrow>
             (case (if filter (\<lambda>s. s_session_id s = sessionId) (sessions db1) = []
                    then insert_session now sessionId visitorId fingerprint clientIP meta db1
                    else Inr db1) of
                Inl err \<Rightarrow> Inl err
              | Inr db2 \<Rightarrow>
                  (case insert_events now sessionId evs db2 of
                     Inl err \<Rightarrow> Inl err
                   | Inr db3 \<Rightarrow> update_event_count now sessionId (length evs) db3)))"

text \<open>What the final \<^verbatim>\<open>UPDATE\<close> does to one row of \<^verbatim>\<open>sessions\<close>.\<close>

definition bump :: "int \<Rightarrow> string \<Rightarrow> nat \<Rightarrow> session_row \<Rightarrow> session_row" where
  "bump now sid n s = (if s_session_id s = sid
                               then s\<lparr>s_event_count := s_event_count s + int n, s_updated_at := now\<rparr>
                               else s)"

section \<open>The selector walk, in words\<close>

text \<open>
  The element and its ancestors, nearest first, and the id and the level string of
  the node at a path.
\<close>

definition ancestors_or_self :: "nat list \<Rightarrow> nat list list" where
  "ancestors_or_self p = map (\<lambda>k. take k p) (rev [0 ..< Suc (length p)])"

definition idAt :: "dnode \<Rightarrow> nat list \<Rightarrow> string" where
  "idAt doc p = (case node_at doc p of Some n \<Rightarrow> el_id n | None \<Rightarrow> [])"

definition levelAt :: "(string \<Rightarrow> string) \<Rightarrow> dnode \<Rightarrow> nat list \<Rightarrow> string" where
  "levelAt esc doc p = (case node_at doc p of Some n \<Rightarrow> levelSelector esc doc p n | None \<Rightarrow> [])"

text \<open>
  The walk as the specification words it: \<open>#id\<close> at once for an element with an id;
  otherwise one level string for the element and each of its nearest five
  ancestors, up to the root, joined root first.
\<close>

definition spec_getSelector :: "(string \<Rightarrow> string) \<Rightarrow> dnode \<Rightarrow> nat list \<Rightarrow> string" where
  "spec_getSelector esc doc el =
     (case node_at doc el of
        None \<Rightarrow> []
      | Some n \<Rightarrow>
          if nodeType n \<noteq> 1 then []
          else if el_id n \<noteq> [] then ''#'' @ esc (el_id n)
          else join '' > '' (rev (map (levelAt esc doc) (take 6 (ancestors_or_self el)))))"

text \<open>
  The walk with the rule for an ancestor that has an id: the chain of the element
  and its nearest five ancestors is cut at the first node with an id, which heads
  the path as \<open>#id\<close>; the nodes before it give their level strings.
\<close>

definition amended_getSelector :: "(string \<Rightarrow> string) \<Rightarrow> dnode \<Rightarrow> nat list \<Rightarrow> string" where
  "amended_getSelector esc doc el =
     (case node_at doc el of
        None \<Rightarrow> []
      | Some n \<Rightarrow>
          if nodeType n \<noteq> 1 then []
          else if el_id n \<noteq> [] then ''#'' @ esc (el_id n)
          else (let chain = take 6 (ancestors_or_self el);
                    plain = takeWhile (\<lambda>p. idAt doc p = []) chain;
                    stop = dropWhile (\<lambda>p. idAt doc p = []) chain
                in join '' > ''
                     ((case stop of [] \<Rightarrow> [] | q # qs \<Rightarrow> [''#'' @ esc (idAt doc q)])
                      @ rev (map (levelAt esc doc) plain))))"

text \<open>The same path built node by node, for the proof.\<close>

fun chain_parts :: "(string \<Rightarrow> string) \<Rightarrow> dnode \<Rightarrow> nat list list \<Rightarrow> string list" where
  "chain_parts esc doc [] = []"
| "chain_parts esc doc (p # ps) =
     (if idAt doc p \<noteq> [] then [''#'' @ esc (idAt doc p)]
      else chain_parts esc doc ps @ [levelAt esc doc p])"

section \<open>An example document\<close>

text \<open>
  A page whose body holds a \<open>div\<close> with the exclusion attribute and a secret text,
  a \<open>section\<close> with one excluded and one ordinary paragraph, and a \<open>div\<close> with the id
  \<open>main\<close> around a \<open>span\<close>; a fresh recorder; and two mutation records: the text
  inside the excluded \<open>div\<close> changed, and the \<open>section\<close> was added to the body.
\<close>

definition ex_document :: dnode where
  "ex_document =
     Element ''HTML'' [] [
       Element ''BODY'' [(''class'', ''page  dark wide'')] [
         Element ''DIV'' [(''data-ym-disable'', [])] [Text ''secret''] [] 0,
         Element ''SECTION'' [] [
           Element ''P'' [(''data-ym-disable'', [])] [Text ''hidden''] [] 0,
           Element ''P'' [] [Text ''shown''] [] 0] [] 0,
         Element ''DIV'' [(''id'', ''main'')] [
           Element ''SPAN'' [] [Text ''x''] [] 0] [] 0] [] 0] [] 0"

definition ex_recorder :: dom_recorder where
  "ex_recorder = \<lparr>nodeIdMap = Map.empty, nextNodeId = 1,
                   excludeAttribute = ''data-ym-disable'', observer = True\<rparr>"

definition ex_mutations :: "mutation_record list" where
  "ex_mutations =
     [\<lparr>m_type = characterData, m_target = [0, 0, 0], m_addedNodes = [], m_removedNodes = [],
       m_attributeName = None, m_oldValue = Some ''old''\<rparr>,
      \<lparr>m_type = childList, m_target = [0], m_addedNodes = [[0, 1]], m_removedNodes = [],
       m_attributeName = None, m_oldValue = None\<rparr>]"

section \<open>The registry invariant and example states\<close>

text \<open>
  What holds of the registry throughout a session: every identifier handed out lies
  below the counter, and no identifier is held by two nodes.
\<close>

definition reg_inv :: "('n, 'x) registry_scheme \<Rightarrow> bool" where
  "reg_inv r = ((\<forall>n k. nodeIdMap r n = Some k \<longrightarrow> k < nextNodeId r) \<and>
               (\<forall>n m k. nodeIdMap r n = Some k \<and> nodeIdMap r m = Some k \<longrightarrow> n = m))"

text \<open>
  How the controller's two lists move between two moments when no batch is put
  back: the recorded stream grows by the events \<open>new\<close>; the queue is a tail of the
  old queue followed by \<open>new\<close>; and it is all of that when no flush started.
\<close>

definition queue_grows :: "webvisor \<Rightarrow> event list list \<Rightarrow> webvisor \<Rightarrow> bool" where
  "queue_grows w started w' =
     (\<exists>new. events w' = events w @ new \<and>
            suffix (sendQueue w') (sendQueue w @ new) \<and>
            (started = [] \<longrightarrow> sendQueue w' = sendQueue w @ new))"

text \<open>
  A recording session with four clicks recorded and queued and a batch size of three,
  and a navigation recorder on \<open>/home\<close> whose one pattern is \<^verbatim>\<open>/\/admin/\<close>, made from
  a string.
\<close>

definition ex_event :: "nat \<Rightarrow> event" where
  "ex_event k = \<lparr>ev_type = MOUSE_CLICK, ev_timestamp = int k, ev_sessionId = Some ''wv_1'',
                 ev_data = OtherData ''click''\<rparr>"

definition ex_webvisor :: webvisor where
  "ex_webvisor =
     \<lparr>batchSize = 3, wv_sessionId = Some ''wv_1'', events = map ex_event [1, 2, 3, 4],
      isRecording = True, isSampled = True, sendQueue = map ex_event [1, 2, 3, 4],
      batchTimer = True,
      domRecorder_on = True, interactionRecorder_on = True, inputRecorder_on = True,
      navigationRecorder_on = True\<rparr>"

text \<open>The same session at its start, with a batch size of two.\<close>

definition ex_webvisor_small :: webvisor where
  "ex_webvisor_small = ex_webvisor\<lparr>batchSize := 2, events := [], sendQueue := []\<rparr>"

definition ex_navigation :: navigation_recorder where
  "ex_navigation =
     \<lparr>excludePages = [\<lparr>re_exec = literal_exec ''/admin'', re_global = False,
                       re_sticky = False, re_lastIndex = 0\<rparr>],
      currentUrl = ''/home'', nav_isRecording = True\<rparr>"

text \<open>The same recorder with the pattern \<^verbatim>\<open>/\/admin/g\<close>, handed in as an object.\<close>

definition ex_navigation_global :: navigation_recorder where
  "ex_navigation_global =
     \<lparr>excludePages = [\<lparr>re_exec = literal_exec ''/admin'', re_global = True,
                       re_sticky = False, re_lastIndex = 0\<rparr>],
      currentUrl = ''/home'', nav_isRecording = True\<rparr>"

text \<open>
  An empty database, a batch's metadata and events, and the database after a batch
  of three and after a further batch of two for the session \<open>wv_abc\<close>.
\<close>

definition empty_database :: database where
  "empty_database = \<lparr>visitors = [], sessions = [], event_rows = [], visitors_seq = 1,
                      sessions_seq = 1, events_seq = 1\<rparr>"

definition ex_meta :: batch_meta where
  "ex_meta = \<lparr>meta_url = Some ''https://shop.test/'', meta_title = Some ''Shop'',
               meta_referrer = None, meta_userAgent = Some ''UA'', meta_language = Some ''en-US'',
               meta_timezone = Some ''Europe/Paris'', meta_screen = Some (Some 1920, Some 1080),
               meta_viewport = Some (Some 1280, Some 720)\<rparr>"

definition ex_wire_event :: "int \<Rightarrow> wire_event" where
  "ex_wire_event k = \<lparr>we_type = Some 3, we_timestamp = Some (1700000000000 + k), we_data = None\<rparr>"

definition ex_db1 :: database where
  "ex_db1 =
     \<lparr>visitors =
        [\<lparr>v_id = 1, v_fingerprint = ''fp_l9erob'', v_ip_address = Some ''10.0.0.7'',
          v_screen_width = Some 1920, v_screen_height = Some 1080, v_user_agent = Some ''UA'',
          v_language = Some ''en-US'', v_timezone = Some ''Europe/Paris'',
          v_first_seen = 100, v_last_seen = 100, v_visit_count = 1\<rparr>],
      sessions =
        [\<lparr>s_id = 1, s_session_id = ''wv_abc'', s_visitor_id = Some 1,
          s_fingerprint = Some ''fp_l9erob'', s_ip_address = Some ''10.0.0.7'',
          s_url = Some ''https://shop.test/'', s_title = Some ''Shop'', s_referrer = None,
          s_user_agent = Some ''UA'', s_screen_width = Some 1920, s_screen_height = Some 1080,
          s_viewport_width = Some 1280, s_viewport_height = Some 720,
          s_created_at = 100, s_updated_at = 100, s_event_count = 3\<rparr>],
      event_rows =
        [\<lparr>e_id = 1, e_session_id = ''wv_abc'', e_event_type = 3, e_timestamp = 1700000000001,
          e_data = ''{}'', e_created_at = 100\<rparr>,
         \<lparr>e_id = 2, e_session_id = ''wv_abc'', e_event_type = 3, e_timestamp = 1700000000002,
          e_data = ''{}'', e_created_at = 100\<rparr>,
         \<lparr>e_id = 3, e_session_id = ''wv_abc'', e_event_type = 3, e_timestamp = 1700000000003,
          e_data = ''{}'', e_created_at = 100\<rparr>],
      visitors_seq = 2, sessions_seq = 2, events_seq = 4\<rparr>"

definition ex_db2 :: database where
  "ex_db2 =
     \<lparr>visitors =
        [\<lparr>v_id = 1, v_fingerprint = ''fp_l9erob'', v_ip_address = Some ''10.0.0.7'',
          v_screen_width = Some 1920, v_screen_height = Some 1080, v_user_agent = Some ''UA'',
          v_language = Some ''en-US'', v_timezone = Some ''Europe/Paris'',
          v_first_seen = 100, v_last_seen = 200, v_visit_count = 2\<rparr>],
      sessions =
        [\<lparr>s_id = 1, s_session_id = ''wv_abc'', s_visitor_id = Some 1,
          s_fingerprint = Some ''fp_l9erob'', s_ip_address = Some ''10.0.0.7'',
          s_url = Some ''https://shop.test/'', s_title = Some ''Shop'', s_referrer = None,
          s_user_agent = Some ''UA'', s_screen_width = Some 1920, s_screen_height = Some 1080,
          s_viewport_width = Some 1280, s_viewport_height = Some 720,
          s_created_at = 100, s_updated_at = 200, s_event_count = 5\<rparr>],
      event_rows = event_rows ex_db1 @
        [\<lparr>e_id = 4, e_session_id = ''wv_abc'', e_event_type = 3, e_timestamp = 1700000000004,
          e_data = ''{}'', e_created_at = 200\<rparr>,
         \<lparr>e_id = 5, e_session_id = ''wv_abc'', e_event_type = 3, e_timestamp = 1700000000005,
          e_data = ''{}'', e_created_at = 200\<rparr>],
      visitors_seq = 2, sessions_seq = 2, events_seq = 6\<rparr>"

text \<open>
  A file store on \<open>./data/sessions\<close>, two file systems that agree on every session
  path but one, and path joining for a plain file name.
\<close>

definition ex_store :: session_store where
  "ex_store = \<lparr>storagePath = ''./data/sessions'', retentionDays = 15, initialized = False\<rparr>"

definition ex_join :: "string \<Rightarrow> string \<Rightarrow> string" where
  "ex_join dir name = dir @ ''/'' @ name"

definition ex_fs :: "(wire_event, batch_meta) filesystem" where
  "ex_fs = \<lparr>files = Map.empty, directories = {}\<rparr>"

definition ex_fs' :: "(wire_event, batch_meta) filesystem" where
  "ex_fs' = \<lparr>files = [''./data/sessions/other.json'' \<mapsto> NotJson ''x''], directories = {}\<rparr>"

section \<open>Properties\<close>

subsection \<open>The masking transform\<close>

text \<open>
  C4: for every string \<open>v\<close>, \<open>maskValue v\<close> consists of the mask character \<open>*\<close> only,
  repeated \<open>min (length v) 20\<close> times, and masking a masked value changes nothing.
\<close>

theorem maskValue_bounded_idempotent:
  "maskValue v = replicate (min (length v) 20) (CHR ''*'') \<and>
   set (maskValue v) \<subseteq> {CHR ''*''} \<and>
   length (maskValue v) = min (length v) 20 \<and>
   maskValue (maskValue v) = maskValue v"
  by (auto simp: maskValue_def)

subsection \<open>The identity registry\<close>

lemma reg_inv_new: "reg_inv new_registry"
  by (simp add: reg_inv_def new_registry_def)

lemma getNodeId_step:
  assumes "reg_inv r" and "getNodeId n r = (k, r')"
  shows "reg_inv r'" and "nodeIdMap r' n = Some k" and "nodeIdMap r \<subseteq>\<^sub>m nodeIdMap r'"
proof -
  show "reg_inv r'"
  proof (cases "nodeIdMap r n")
    case None
    with assms(2) have r': "r' = r\<lparr>nodeIdMap := (nodeIdMap r)(n \<mapsto> nextNodeId r),
                       nextNodeId := nextNodeId r + 1\<rparr>"
      by (auto simp: getNodeId_def)
    from assms(1) show ?thesis
      unfolding reg_inv_def r' by (auto simp: less_Suc_eq split: if_splits)
  next
    case (Some a)
    with assms show ?thesis by (simp add: getNodeId_def)
  qed
  show "nodeIdMap r' n = Some k"
    using assms(2) by (cases "nodeIdMap r n") (auto simp: getNodeId_def)
  show "nodeIdMap r \<subseteq>\<^sub>m nodeIdMap r'"
    using assms(2) by (cases "nodeIdMap r n") (auto simp: getNodeId_def map_le_def)
qed

lemma getNodeIds_run:
  "reg_inv r \<Longrightarrow> getNodeIds ns r = (ids, r') \<Longrightarrow>
     reg_inv r' \<and> length ids = length ns \<and> nodeIdMap r \<subseteq>\<^sub>m nodeIdMap r' \<and>
     (\<forall>i < length ns. nodeIdMap r' (ns ! i) = Some (ids ! i))"
proof (induction ns arbitrary: r ids r')
  case Nil
  then show ?case by simp
next
  case (Cons n ns)
  obtain k r1 where s1: "getNodeId n r = (k, r1)" by (cases "getNodeId n r")
  obtain ks r2 where s2: "getNodeIds ns r1 = (ks, r2)" by (cases "getNodeIds ns r1")
  from Cons.prems(2) s1 s2 have eq: "ids = k # ks" "r' = r2" by auto
  note st = getNodeId_step[OF Cons.prems(1) s1]
  from Cons.IH[OF st(1) s2]
  have ih: "reg_inv r2" "length ks = length ns" "nodeIdMap r1 \<subseteq>\<^sub>m nodeIdMap r2"
    "\<forall>i<length ns. nodeIdMap r2 (ns ! i) = Some (ks ! i)" by auto
  have n: "nodeIdMap r2 n = Some k"
    using st(2) ih(3) by (auto simp: map_le_def dom_def)
  have le: "nodeIdMap r \<subseteq>\<^sub>m nodeIdMap r2"
    using st(3) ih(3) by (rule map_le_trans)
  have "\<forall>i<length (n # ns). nodeIdMap r2 ((n # ns) ! i) = Some ((k # ks) ! i)"
    using n ih(4) by (auto simp: nth_Cons split: nat.splits)
  with ih(1,2) le show ?case unfolding eq by simp
qed

lemma getNodeIds_trace:
  assumes "i < length ns" "j < length ns"
  shows "(fst (getNodeIds ns new_registry) ! i = fst (getNodeIds ns new_registry) ! j) = (ns ! i = ns ! j)"
proof -
  obtain ids r' where run: "getNodeIds ns (new_registry :: 'a registry) = (ids, r')"
    by (cases "getNodeIds ns (new_registry :: 'a registry)")
  from getNodeIds_run[OF reg_inv_new run]
  have inv: "reg_inv r'" and m: "\<forall>i<length ns. nodeIdMap r' (ns ! i) = Some (ids ! i)" by auto
  from m assms have a: "nodeIdMap r' (ns ! i) = Some (ids ! i)" "nodeIdMap r' (ns ! j) = Some (ids ! j)"
    by auto
  have "(ids ! i = ids ! j) = (ns ! i = ns ! j)"
  proof
    assume "ids ! i = ids ! j"
    with a inv show "ns ! i = ns ! j" unfolding reg_inv_def by metis
  next
    assume "ns ! i = ns ! j"
    with a show "ids ! i = ids ! j" by simp
  qed
  then show ?thesis by (simp add: run)
qed

text \<open>
  C9: a first call of \<open>getNodeId\<close> on a node returns the counter, records it for the
  node and advances the counter by one; a call on a node straight after a call on it
  returns the same identifier and changes nothing. Over any sequence \<open>ns\<close> of calls
  in a session, two calls return the same identifier exactly when they are calls on
  the same node, and every identifier recorded lies below the counter, so the next
  one allocated is unused.
\<close>

theorem getNodeId_stable_injective:
  fixes r :: "('n, 'x) registry_scheme" and ns :: "'n list"
  shows
  "(nodeIdMap r n = None \<longrightarrow>
      getNodeId n r = (nextNodeId r, r\<lparr>nodeIdMap := (nodeIdMap r)(n \<mapsto> nextNodeId r),
                                        nextNodeId := nextNodeId r + 1\<rparr>)) \<and>
   getNodeId n (snd (getNodeId n r)) = (fst (getNodeId n r), snd (getNodeId n r)) \<and>
   (i < length ns \<and> j < length ns \<longrightarrow>
      (fst (getNodeIds ns new_registry) ! i = fst (getNodeIds ns new_registry) ! j)
        = (ns ! i = ns ! j)) \<and>
   (nodeIdMap (snd (getNodeIds ns new_registry)) m = Some k \<longrightarrow>
      k < nextNodeId (snd (getNodeIds ns new_registry)))"
proof -
  have a: "nodeIdMap r n = None \<longrightarrow>
      getNodeId n r = (nextNodeId r, r\<lparr>nodeIdMap := (nodeIdMap r)(n \<mapsto> nextNodeId r),
                                        nextNodeId := nextNodeId r + 1\<rparr>)"
    by (simp add: getNodeId_def)
  have b: "getNodeId n (snd (getNodeId n r)) = (fst (getNodeId n r), snd (getNodeId n r))"
    by (cases "nodeIdMap r n") (simp_all add: getNodeId_def)
  have c: "i < length ns \<and> j < length ns \<longrightarrow>
      (fst (getNodeIds ns new_registry) ! i = fst (getNodeIds ns new_registry) ! j)
        = (ns ! i = ns ! j)"
    using getNodeIds_trace by blast
  obtain ids r' where run: "getNodeIds ns (new_registry :: 'n registry) = (ids, r')"
    by (cases "getNodeIds ns (new_registry :: 'n registry)")
  from getNodeIds_run[OF reg_inv_new run] have "reg_inv r'" by simp
  then have d: "nodeIdMap (snd (getNodeIds ns new_registry)) m = Some k \<longrightarrow>
      k < nextNodeId (snd (getNodeIds ns new_registry))"
    by (simp add: run reg_inv_def)
  from a b c d show ?thesis by blast
qed

theorem getNodeId_stable_injective_witness:
  "nodeIdMap (new_registry :: noderef registry) (Attached [0]) = None \<and>
   getNodeId (Attached [0]) (new_registry :: noderef registry) =
     (1, \<lparr>nodeIdMap = [Attached [0] \<mapsto> 1], nextNodeId = 2\<rparr>) \<and>
   fst (getNodeIds [Attached [0], Attached [1], Attached [0]] new_registry) ! 0 =
   fst (getNodeIds [Attached [0], Attached [1], Attached [0]] new_registry) ! 2 \<and>
   fst (getNodeIds [Attached [0], Attached [1], Attached [0]] new_registry) ! 0 \<noteq>
   fst (getNodeIds [Attached [0], Attached [1], Attached [0]] new_registry) ! 1"
proof -
  let ?ns = "[Attached [0], Attached [1], Attached [0]]"
  let ?r = "new_registry :: noderef registry"
  have h: "nodeIdMap ?r (Attached [0]) = None"
    by (simp add: new_registry_def)
  have l: "0 < length ?ns \<and> 2 < length ?ns" "0 < length ?ns \<and> 1 < length ?ns" by simp_all
  from getNodeId_stable_injective[of ?r "Attached [0]" 0 ?ns 2] h
  have A: "getNodeId (Attached [0]) ?r =
     (nextNodeId ?r, ?r\<lparr>nodeIdMap := (nodeIdMap ?r)(Attached [0] \<mapsto> nextNodeId ?r),
                        nextNodeId := nextNodeId ?r + 1\<rparr>)" by blast
  from getNodeId_stable_injective[of ?r "Attached [0]" 0 ?ns 2] l(1)
  have B: "(fst (getNodeIds ?ns new_registry) ! 0 = fst (getNodeIds ?ns new_registry) ! 2)
             = (?ns ! 0 = ?ns ! 2)" by blast
  from getNodeId_stable_injective[of ?r "Attached [0]" 0 ?ns 1] l(2)
  have C: "(fst (getNodeIds ?ns new_registry) ! 0 = fst (getNodeIds ?ns new_registry) ! 1)
             = (?ns ! 0 = ?ns ! 1)" by blast
  have B': "fst (getNodeIds ?ns new_registry) ! 0 = fst (getNodeIds ?ns new_registry) ! 2"
    unfolding B by simp
  have C': "fst (getNodeIds ?ns new_registry) ! 0 \<noteq> fst (getNodeIds ?ns new_registry) ! 1"
    unfolding C by simp
  have A': "getNodeId (Attached [0]) ?r = (1, \<lparr>nodeIdMap = [Attached [0] \<mapsto> 1], nextNodeId = 2\<rparr>)"
    unfolding A by (simp add: new_registry_def)
  from h A' B' C' show ?thesis by blast
qed

subsection \<open>The send queue\<close>

lemma queue_grows_refl: "events w' = events w \<Longrightarrow> sendQueue w' = sendQueue w \<Longrightarrow> queue_grows w [] w'"
  unfolding queue_grows_def by (intro exI[of _ "[]"]) simp

lemma queue_grows_trans:
  assumes "queue_grows w s1 w1" and "queue_grows w1 s2 w2"
  shows "queue_grows w (s1 @ s2) w2"
proof -
  from assms(1) obtain n1 where a: "events w1 = events w @ n1"
    "suffix (sendQueue w1) (sendQueue w @ n1)" "s1 = [] \<longrightarrow> sendQueue w1 = sendQueue w @ n1"
    unfolding queue_grows_def by blast
  from assms(2) obtain n2 where b: "events w2 = events w1 @ n2"
    "suffix (sendQueue w2) (sendQueue w1 @ n2)" "s2 = [] \<longrightarrow> sendQueue w2 = sendQueue w1 @ n2"
    unfolding queue_grows_def by blast
  from a(2) obtain zs where zs: "sendQueue w @ n1 = zs @ sendQueue w1"
    by (auto simp: suffix_def)
  have "suffix (sendQueue w1 @ n2) (sendQueue w @ n1 @ n2)"
    using zs by (metis append.assoc suffixI)
  with b(2) have s: "suffix (sendQueue w2) (sendQueue w @ n1 @ n2)"
    by (rule suffix_order.trans)
  have e: "events w2 = events w @ n1 @ n2" using a(1) b(1) by simp
  have x: "s1 @ s2 = [] \<longrightarrow> sendQueue w2 = sendQueue w @ n1 @ n2"
    using a(3) b(3) by simp
  from e s x show ?thesis unfolding queue_grows_def by blast
qed

lemma queue_grows_begin:
  "sendBatch_begin w = (b, w') \<Longrightarrow>
     queue_grows w (case b of None \<Rightarrow> [] | Some batch \<Rightarrow> [batch]) w'"
  unfolding queue_grows_def
  by (intro exI[of _ "[]"]) (auto simp: sendBatch_begin_def suffix_drop split: if_splits)

lemma queue_grows_handleEvent:
  assumes "handleEvent e w = (b, w')"
  shows "queue_grows w (case b of None \<Rightarrow> [] | Some batch \<Rightarrow> [batch]) w'"
proof (cases "isRecording w")
  case False
  with assms show ?thesis by (auto simp: handleEvent_def intro: queue_grows_refl)
next
  case True
  define e1 where "e1 = e\<lparr>ev_sessionId := wv_sessionId w\<rparr>"
  define wa where "wa = w\<lparr>events := events w @ [e1], sendQueue := sendQueue w @ [e1]\<rparr>"
  have g1: "queue_grows w [] wa"
    unfolding queue_grows_def wa_def by (intro exI[of _ "[e1]"]) simp
  show ?thesis
  proof (cases "length (sendQueue wa) \<ge> batchSize wa")
    case full: True
    with assms True have "sendBatch_begin wa = (b, w')"
      by (simp add: handleEvent_def Let_def wa_def e1_def)
    from queue_grows_trans[OF g1 queue_grows_begin[OF this]] show ?thesis by simp
  next
    case False
    with assms True have "b = None" "w' = wa"
      by (simp_all add: handleEvent_def Let_def wa_def e1_def)
    with g1 show ?thesis by simp
  qed
qed

lemma queue_grows_handleEvents:
  "handleEvents es w = (started, w') \<Longrightarrow> queue_grows w started w'"
proof (induction es arbitrary: w started w')
  case Nil
  then show ?case by (auto intro: queue_grows_refl)
next
  case (Cons e es)
  obtain b wa where s1: "handleEvent e w = (b, wa)" by (cases "handleEvent e w")
  obtain bs wb where s2: "handleEvents es wa = (bs, wb)" by (cases "handleEvents es wa")
  from Cons.prems s1 s2 have eq: "w' = wb"
    "started = (case b of None \<Rightarrow> [] | Some x \<Rightarrow> [x]) @ bs"
    by (auto split: option.splits)
  from queue_grows_trans[OF queue_grows_handleEvent[OF s1] Cons.IH[OF s2]]
  show ?case unfolding eq .
qed

lemma queue_grows_fields:
  "queue_grows w s w' \<Longrightarrow> events w'' = events w' \<Longrightarrow> sendQueue w'' = sendQueue w' \<Longrightarrow>
     queue_grows w s w''"
  unfolding queue_grows_def by simp

lemma queue_grows_from:
  "queue_grows w' s w'' \<Longrightarrow> events w' = events w \<Longrightarrow> sendQueue w' = sendQueue w \<Longrightarrow>
     queue_grows w s w''"
  unfolding queue_grows_def by simp

lemma queue_grows_stop_begin:
  assumes "stop_begin now href w = (b, w')"
  shows "queue_grows w (case b of None \<Rightarrow> [] | Some batch \<Rightarrow> [batch]) w'"
proof (cases "isRecording w")
  case False
  with assms show ?thesis by (auto simp: stop_begin_def intro: queue_grows_refl)
next
  case True
  define w4 where "w4 = stopBatchTimer (w\<lparr>isRecording := False, domRecorder_on := False,
     interactionRecorder_on := False, inputRecorder_on := False, navigationRecorder_on := False\<rparr>)"
  from assms True have b: "sendBatch_begin w4 = (b, w')"
    by (simp add: stop_begin_def handleEvent_def Let_def w4_def)
  have "events w4 = events w" "sendQueue w4 = sendQueue w"
    by (simp_all add: w4_def stopBatchTimer_def)
  with queue_grows_begin[OF b] show ?thesis by (rule queue_grows_from)
qed

lemma queue_grows_start:
  assumes "start env w = (ok, started, w')"
  shows "queue_grows w started w'"
proof (cases "isRecording w \<or> env_pageExcluded env \<or> \<not> env_sampled env")
  case True
  with assms show ?thesis
    by (auto simp: start_def Let_def intro: queue_grows_refl split: if_splits)
next
  case False
  define w3 where "w3 = w\<lparr>isSampled := env_sampled env, wv_sessionId := Some (env_sessionId env),
     isRecording := True\<rparr>"
  define first where "first = [\<lparr>ev_type = SESSION_START, ev_timestamp = env_now env, ev_sessionId = None,
                          ev_data = SessionStartData (env_href env) (env_title env)
                                      (env_referrer env)\<rparr>, env_snapshot env]"
  obtain s1 w4 where h1: "handleEvents first w3 = (s1, w4)" by (cases "handleEvents first w3")
  define w5 where "w5 = w4\<lparr>domRecorder_on := True, interactionRecorder_on := True,
                           inputRecorder_on := True, navigationRecorder_on := True\<rparr>"
  obtain s2 w6 where h2: "handleEvents (case env_pageLoad env of None \<Rightarrow> [] | Some e \<Rightarrow> [e]) w5 = (s2, w6)"
    by (cases "handleEvents (case env_pageLoad env of None \<Rightarrow> [] | Some e \<Rightarrow> [e]) w5")
  from assms False h1 h2 have r: "started = s1 @ s2" "w' = startBatchTimer w6"
    by (simp_all add: start_def Let_def w3_def first_def w5_def)
  have "queue_grows w s1 w4"
    using queue_grows_handleEvents[OF h1]
    by (rule queue_grows_from) (simp_all add: w3_def)
  then have g1: "queue_grows w s1 w5"
    by (rule queue_grows_fields) (simp_all add: w5_def)
  have g2: "queue_grows w5 s2 w'"
    using queue_grows_handleEvents[OF h2] unfolding r
    by (rule queue_grows_fields) (simp_all add: startBatchTimer_def)
  from queue_grows_trans[OF g1 g2] show ?thesis unfolding r .
qed

lemma queue_grows_step:
  "in_flight_step a w = (started, w') \<Longrightarrow> queue_grows w started w'"
proof (cases a)
  case (Arrives e)
  assume h: "in_flight_step a w = (started, w')"
  obtain b wa where s: "handleEvent e w = (b, wa)" by (cases "handleEvent e w")
  with h Arrives have "started = (case b of None \<Rightarrow> [] | Some x \<Rightarrow> [x])" "w' = wa"
    by (auto split: option.splits)
  with queue_grows_handleEvent[OF s] show ?thesis by simp
next
  case FlushStarts
  assume h: "in_flight_step a w = (started, w')"
  obtain b wa where s: "sendBatch_begin w = (b, wa)" by (cases "sendBatch_begin w")
  with h FlushStarts have "started = (case b of None \<Rightarrow> [] | Some x \<Rightarrow> [x])" "w' = wa"
    by (auto split: option.splits)
  with queue_grows_begin[OF s] show ?thesis by simp
next
  case (FlushSucceeds batch status)
  assume "in_flight_step a w = (started, w')"
  with FlushSucceeds show ?thesis
    by (auto simp: sendBatch_settle_def intro: queue_grows_refl)
next
  case (Stops now href)
  assume h: "in_flight_step a w = (started, w')"
  obtain b wa where s: "stop_begin now href w = (b, wa)" by (cases "stop_begin now href w")
  with h Stops have "started = (case b of None \<Rightarrow> [] | Some x \<Rightarrow> [x])" "w' = wa"
    by (auto split: option.splits)
  with queue_grows_stop_begin[OF s] show ?thesis by simp
next
  case (Starts env)
  assume h: "in_flight_step a w = (started, w')"
  obtain ok where "start env w = (ok, started, w')"
    using h Starts by (cases "start env w") auto
  then show ?thesis by (rule queue_grows_start)
next
  case TimerStarts
  assume "in_flight_step a w = (started, w')"
  with TimerStarts show ?thesis
    by (auto simp: startBatchTimer_def intro: queue_grows_refl)
next
  case TimerStops
  assume "in_flight_step a w = (started, w')"
  with TimerStops show ?thesis
    by (auto simp: stopBatchTimer_def intro: queue_grows_refl)
qed

lemma queue_grows_run:
  "in_flight_run acts w = (started, w') \<Longrightarrow> queue_grows w started w'"
proof (induction acts arbitrary: w started w')
  case Nil
  then show ?case by (auto intro: queue_grows_refl)
next
  case (Cons a acts)
  obtain s1 wa where s1: "in_flight_step a w = (s1, wa)" by (cases "in_flight_step a w")
  obtain s2 wb where s2: "in_flight_run acts wa = (s2, wb)" by (cases "in_flight_run acts wa")
  from Cons.prems s1 s2 have eq: "w' = wb" "started = s1 @ s2" by auto
  from queue_grows_trans[OF queue_grows_step[OF s1] Cons.IH[OF s2]]
  show ?case unfolding eq .
qed

lemma stop_split:
  "stop now href res w =
     (case stop_begin now href w of
        (None, w1) \<Rightarrow> w1
      | (Some batch, w1) \<Rightarrow> sendBatch_settle res batch w1)"
  by (simp add: stop_def stop_begin_def sendBatch_def Let_def)

text \<open>
  C5, as amended: a flush takes \<open>min (length queue) batchSize\<close> events off the head
  of the queue. While its request is in flight let anything happen but another flush
  putting its batch back: events arrive, flushes start by size, by the timer or from
  \<open>stop\<close>, other requests succeed, \<open>stop\<close> and \<open>start\<close> run, the timer is set or
  cleared. Let \<open>enq\<close> be the events recorded meanwhile, which are those enqueued
  meanwhile. When the request fails, by a response that is not ok or by a
  rejection, the batch goes back on the head of the queue as it is then, in its
  order and ahead of everything enqueued since; the queue is then a subsequence of
  the enqueue order, and it is that whole order when no flush started meanwhile.
  When the request succeeds the controller is left as it is, the batch gone.
\<close>

theorem sendBatch_requeue_order:
  assumes "sendBatch_begin w = (b, w1)"
      and "in_flight_run acts w1 = (started, w2)"
      and "batch = (case b of None \<Rightarrow> [] | Some x \<Rightarrow> x)"
      and "enq = drop (length (events w)) (events w2)"
  shows "length batch = min (length (sendQueue w)) (batchSize w) \<and>
         batch = take (length batch) (sendQueue w) \<and>
         sendQueue w1 = drop (length batch) (sendQueue w) \<and>
         events w2 = events w @ enq \<and>
         sendQueue (sendBatch_settle (Response False status) batch w2) = batch @ sendQueue w2 \<and>
         sendQueue (sendBatch_settle (Rejected msg) batch w2) = batch @ sendQueue w2 \<and>
         sendBatch_settle (Response True status) batch w2 = w2 \<and>
         suffix (sendQueue w2) (sendQueue w1 @ enq) \<and>
         subseq (batch @ sendQueue w2) (sendQueue w @ enq) \<and>
         (started = [] \<longrightarrow> batch @ sendQueue w2 = sendQueue w @ enq)"
proof -
  from assms(1,3) have b1: "batch = take (batchSize w) (sendQueue w)"
    and q1: "sendQueue w1 = drop (batchSize w) (sendQueue w)"
    and e1: "events w1 = events w"
    by (auto simp: sendBatch_begin_def split: if_splits)
  have len: "length batch = min (length (sendQueue w)) (batchSize w)"
    unfolding b1 by simp
  have tk: "batch = take (length batch) (sendQueue w)"
    unfolding len unfolding b1
    by (cases "batchSize w \<le> length (sendQueue w)") (simp_all add: min_def)
  have dr: "sendQueue w1 = drop (length batch) (sendQueue w)"
    unfolding len q1 by (simp add: min_def)
  have whole: "batch @ sendQueue w1 = sendQueue w"
    unfolding b1 q1 by simp
  from queue_grows_run[OF assms(2)] obtain new where
    n: "events w2 = events w1 @ new" "suffix (sendQueue w2) (sendQueue w1 @ new)"
       "started = [] \<longrightarrow> sendQueue w2 = sendQueue w1 @ new"
    unfolding queue_grows_def by blast
  have enq: "enq = new" using assms(4) n(1) e1 by simp
  have ev: "events w2 = events w @ enq" using n(1) e1 enq by simp
  have suf: "suffix (sendQueue w2) (sendQueue w1 @ enq)" using n(2) enq by simp
  have ex: "started = [] \<longrightarrow> sendQueue w2 = sendQueue w1 @ enq" using n(3) enq by simp
  have "subseq (batch @ sendQueue w2) (batch @ sendQueue w1 @ enq)"
    using suf by (intro list_emb_append_mono subseq_order.order_refl suffix_imp_subseq)
  then have sub: "subseq (batch @ sendQueue w2) (sendQueue w @ enq)"
    using whole by (metis append.assoc)
  have exact: "started = [] \<longrightarrow> batch @ sendQueue w2 = sendQueue w @ enq"
    using ex whole by (metis append.assoc)
  have s1: "sendQueue (sendBatch_settle (Response False status) batch w2) = batch @ sendQueue w2"
    and s2: "sendQueue (sendBatch_settle (Rejected msg) batch w2) = batch @ sendQueue w2"
    and s3: "sendBatch_settle (Response True status) batch w2 = w2"
    by (simp_all add: sendBatch_settle_def)
  from len tk dr ev s1 s2 s3 suf sub exact show ?thesis by blast
qed

text \<open>
  The example session with three of four events in flight: once with a fifth event
  arriving meanwhile, once with the timer's flush starting after it.
\<close>

lemma ex_begin:
  "sendBatch_begin ex_webvisor =
     (Some (map ex_event [1, 2, 3]), ex_webvisor\<lparr>sendQueue := [ex_event 4]\<rparr>)"
  by (simp add: sendBatch_begin_def ex_webvisor_def)

lemma ex_during:
  "in_flight_run [Arrives (ex_event 5)] (ex_webvisor\<lparr>sendQueue := [ex_event 4]\<rparr>) =
     ([], ex_webvisor\<lparr>events := map ex_event [1, 2, 3, 4, 5], sendQueue := map ex_event [4, 5]\<rparr>)"
  by (simp add: handleEvent_def ex_webvisor_def ex_event_def Let_def)

lemma ex_during_timer:
  "in_flight_run [Arrives (ex_event 5), FlushStarts] (ex_webvisor\<lparr>sendQueue := [ex_event 4]\<rparr>) =
     ([map ex_event [4, 5]], ex_webvisor\<lparr>events := map ex_event [1, 2, 3, 4, 5], sendQueue := []\<rparr>)"
  by (simp add: handleEvent_def sendBatch_begin_def ex_webvisor_def ex_event_def Let_def)

theorem sendBatch_requeue_order_witness:
  "sendQueue (sendBatch_settle (Response False 500) (map ex_event [1, 2, 3])
       (ex_webvisor\<lparr>events := map ex_event [1, 2, 3, 4, 5], sendQueue := map ex_event [4, 5]\<rparr>))
     = map ex_event [1, 2, 3, 4, 5] \<and>
   sendBatch_settle (Response True 500) (map ex_event [1, 2, 3])
       (ex_webvisor\<lparr>events := map ex_event [1, 2, 3, 4, 5], sendQueue := map ex_event [4, 5]\<rparr>)
     = ex_webvisor\<lparr>events := map ex_event [1, 2, 3, 4, 5], sendQueue := map ex_event [4, 5]\<rparr> \<and>
   sendQueue (sendBatch_settle (Response False 500) (map ex_event [1, 2, 3])
       (ex_webvisor\<lparr>events := map ex_event [1, 2, 3, 4, 5], sendQueue := []\<rparr>))
     = map ex_event [1, 2, 3] \<and>
   subseq (map ex_event [1, 2, 3]) (map ex_event [1, 2, 3, 4, 5])"
proof -
  let ?w2 = "ex_webvisor\<lparr>events := map ex_event [1, 2, 3, 4, 5], sendQueue := map ex_event [4, 5]\<rparr>"
  let ?w2t = "ex_webvisor\<lparr>events := map ex_event [1, 2, 3, 4, 5], sendQueue := []\<rparr>"
  have b: "map ex_event [1, 2, 3] =
     (case Some (map ex_event [1, 2, 3]) of None \<Rightarrow> [] | Some x \<Rightarrow> x)" by simp
  have enq: "[ex_event 5] = drop (length (events ex_webvisor)) (events ?w2)"
    by (simp add: ex_webvisor_def)
  have enqt: "[ex_event 5] = drop (length (events ex_webvisor)) (events ?w2t)"
    by (simp add: ex_webvisor_def)
  note A = sendBatch_requeue_order[OF ex_begin ex_during b enq, where status = 500 and msg = "[]"]
  note B = sendBatch_requeue_order[OF ex_begin ex_during_timer b enqt, where status = 500 and msg = "[]"]
  from A have a1: "sendQueue (sendBatch_settle (Response False 500) (map ex_event [1, 2, 3]) ?w2)
      = map ex_event [1, 2, 3] @ sendQueue ?w2"
    and a2: "sendBatch_settle (Response True 500) (map ex_event [1, 2, 3]) ?w2 = ?w2"
    and a3: "map ex_event [1, 2, 3] @ sendQueue ?w2 = sendQueue ex_webvisor @ [ex_event 5]"
    by blast+
  from B have b1: "sendQueue (sendBatch_settle (Response False 500) (map ex_event [1, 2, 3]) ?w2t)
      = map ex_event [1, 2, 3] @ sendQueue ?w2t"
    and b2: "subseq (map ex_event [1, 2, 3] @ sendQueue ?w2t) (sendQueue ex_webvisor @ [ex_event 5])"
    by blast+
  have c1: "sendQueue (sendBatch_settle (Response False 500) (map ex_event [1, 2, 3]) ?w2)
      = map ex_event [1, 2, 3, 4, 5]"
    unfolding a1 a3 by (simp add: ex_webvisor_def)
  have c3: "sendQueue (sendBatch_settle (Response False 500) (map ex_event [1, 2, 3]) ?w2t)
      = map ex_event [1, 2, 3]"
    unfolding b1 by simp
  have c4: "subseq (map ex_event [1, 2, 3]) (map ex_event [1, 2, 3, 4, 5])"
    using b2 by (simp add: ex_webvisor_def)
  from c1 a2 c3 c4 show ?thesis by blast
qed

text \<open>
  C5 as stated fails when flushes overlap, which nothing prevents. With a batch
  size of two, five events start a flush of the first two and a flush of the next
  two. When both requests fail, the first before the second, the second puts its
  batch back ahead of the older one: the queue holds the events in the order
  3, 4, 1, 2, 5 of their timestamps, not in the order 1 to 5 in which they were
  recorded.
\<close>

theorem sendBatch_requeue_order_counterexample:
  "fst (handleEvents (map ex_event [1, 2, 3, 4, 5]) ex_webvisor_small) =
     [map ex_event [1, 2], map ex_event [3, 4]] \<and>
   map ev_timestamp (events (snd (handleEvents (map ex_event [1, 2, 3, 4, 5]) ex_webvisor_small))) =
     [1, 2, 3, 4, 5] \<and>
   map ev_timestamp
     (sendQueue
        (sendBatch_settle (Response False 500) (map ex_event [3, 4])
           (sendBatch_settle (Response False 500) (map ex_event [1, 2])
              (snd (handleEvents (map ex_event [1, 2, 3, 4, 5]) ex_webvisor_small))))) =
     [3, 4, 1, 2, 5]"
  by (simp add: handleEvent_def sendBatch_begin_def sendBatch_settle_def Let_def
        ex_webvisor_small_def ex_webvisor_def ex_event_def)

subsection \<open>Stopping a session\<close>

text \<open>
  C2: \<open>stop\<close> is meant to record a session-end event before it stops the channels
  and flushes. It clears \<open>isRecording\<close> first, so \<open>handleEvent\<close> drops the event: the
  recorded stream after \<open>stop\<close> is the stream before it, whatever the session.
\<close>

theorem stop_drops_session_end:
  "events (stop now href res w) = events w"
  by (simp add: stop_def handleEvent_def sendBatch_def sendBatch_begin_def sendBatch_settle_def
        stopBatchTimer_def Let_def split: fetch_result.splits)

text \<open>On the example session, which is recording, the stream still ends with a click.\<close>

lemma stop_example:
  "isRecording ex_webvisor \<and>
   map ev_type (events (stop 99 ''/home'' (Response True 200) ex_webvisor)) =
     [MOUSE_CLICK, MOUSE_CLICK, MOUSE_CLICK, MOUSE_CLICK]"
  by (simp add: stop_def handleEvent_def sendBatch_def sendBatch_begin_def sendBatch_settle_def
        stopBatchTimer_def Let_def ex_webvisor_def ex_event_def)

subsection \<open>The redaction policy\<close>

text \<open>
  C3: with \<open>maskAllInputs\<close> and \<open>maskSensitiveInputs\<close> both off, \<open>shouldMask\<close> answers
  false for every element, also for one that carries \<open>data-ym-mask\<close>: the test of
  that attribute comes after the return taken when \<open>maskSensitiveInputs\<close> is off.
\<close>

theorem shouldMask_ignores_mask_attribute:
  "shouldMask (r\<lparr>maskAllInputs := False, maskSensitiveInputs := False\<rparr>) element = False"
  by (simp add: shouldMask_def)

subsection \<open>Page transitions\<close>

text \<open>
  When the exclusion test answers true for a new URL, \<open>recordTransition\<close> emits
  nothing and keeps the old \<open>currentUrl\<close>; \<open>recordPageLoad\<close> stores the URL in every
  case.
\<close>

lemma recordTransition_when_excluded:
  assumes "href \<noteq> currentUrl n" and "fst (isExcludedPage n href)"
  shows "fst (recordTransition now href title trigger n) = None \<and>
         currentUrl (snd (recordTransition now href title trigger n)) = currentUrl n"
  using assms
  by (auto simp: recordTransition_def isExcludedPage_def Let_def split: prod.splits)

lemma recordPageLoad_stores_url:
  "currentUrl (snd (recordPageLoad now href title referrer n)) = href"
  by (auto simp: recordPageLoad_def isExcludedPage_def Let_def split: prod.splits)

text \<open>
  C6: on a change to an excluded URL no event should be emitted while \<open>currentUrl\<close>
  advances. Going from \<open>/home\<close> to \<open>/admin/users\<close> under the pattern \<open>/admin\<close>,
  \<open>recordTransition\<close> emits nothing but returns before it stores the URL: the
  recorder is left as it was, on \<open>/home\<close>. \<open>recordPageLoad\<close>, at the same URL, stores
  it before it tests the exclusion.
\<close>

theorem recordTransition_keeps_currentUrl:
  "fst (isExcludedPage ex_navigation ''/admin/users'') \<and>
   ''/admin/users'' \<noteq> currentUrl ex_navigation \<and>
   recordTransition 0 ''/admin/users'' ''Users'' ''pushState'' ex_navigation = (None, ex_navigation) \<and>
   currentUrl ex_navigation = ''/home'' \<and>
   fst (recordPageLoad 0 ''/admin/users'' ''Users'' [] ex_navigation) = None \<and>
   currentUrl (snd (recordPageLoad 0 ''/admin/users'' ''Users'' [] ex_navigation)) = ''/admin/users''"
  by (simp add: recordTransition_def recordPageLoad_def isExcludedPage_def regexp_test_def
        literal_exec_def ex_navigation_def Let_def)

text \<open>
  With the pattern handed in as an object with the \<open>g\<close> flag, the test that matched
  leaves \<open>lastIndex\<close> at 6, and the next test, on another excluded URL, starts there
  and fails: the transition to \<open>/admin/x\<close> is emitted and stored.
\<close>

lemma recordTransition_global_pattern:
  "recordTransition 0 ''/admin/users'' ''Users'' ''pushState'' ex_navigation_global =
     (None, ex_navigation_global\<lparr>excludePages :=
        [\<lparr>re_exec = literal_exec ''/admin'', re_global = True, re_sticky = False,
          re_lastIndex = 6\<rparr>]\<rparr>) \<and>
   recordTransition 1 ''/admin/x'' ''X'' ''pushState''
     (snd (recordTransition 0 ''/admin/users'' ''Users'' ''pushState'' ex_navigation_global)) =
     (Some \<lparr>ev_type = PAGE_TRANSITION, ev_timestamp = 1, ev_sessionId = None,
            ev_data = PageTransitionData ''pushState'' ''/home'' ''/admin/x'' ''X''\<rparr>,
      ex_navigation_global\<lparr>currentUrl := ''/admin/x''\<rparr>)"
  by (simp add: recordTransition_def isExcludedPage_def regexp_test_def
        literal_exec_def ex_navigation_global_def Let_def)

subsection \<open>The selector deriver\<close>

lemma chain_parts_eq:
  "chain_parts esc doc chain =
     (case dropWhile (\<lambda>p. idAt doc p = []) chain of [] \<Rightarrow> [] | q # qs \<Rightarrow> [''#'' @ esc (idAt doc q)])
     @ rev (map (levelAt esc doc) (takeWhile (\<lambda>p. idAt doc p = []) chain))"
  by (induction chain) auto

lemma ancestors_or_self_rec:
  "ancestors_or_self p = p # (if p = [] then [] else ancestors_or_self (butlast p))"
proof (cases "p = []")
  case True
  then show ?thesis by (simp add: ancestors_or_self_def)
next
  case False
  then obtain n where n: "length p = Suc n" by (cases p) auto
  have "map (\<lambda>k. take k p) (rev [0 ..< Suc n]) = map (\<lambda>k. take k (butlast p)) (rev [0 ..< Suc n])"
    by (rule map_cong) (auto simp: take_butlast n butlast_conv_take less_Suc_eq)
  with False n show ?thesis by (simp add: ancestors_or_self_def butlast_conv_take)
qed

lemma childNodes_nonempty_Element: "i < length (childNodes n) \<Longrightarrow> nodeType n = 1"
  by (cases n) auto

lemma node_at_parent:
  "node_at doc p = Some n \<Longrightarrow> p \<noteq> [] \<Longrightarrow>
     \<exists>m. node_at doc (butlast p) = Some m \<and> nodeType m = 1"
proof (induction p arbitrary: doc)
  case Nil
  then show ?case by simp
next
  case (Cons i p)
  from Cons.prems(1) have i: "i < length (childNodes doc)"
    and sub: "node_at (childNodes doc ! i) p = Some n"
    by (auto split: if_splits)
  show ?case
  proof (cases "p = []")
    case True
    with i show ?thesis by (simp add: childNodes_nonempty_Element)
  next
    case False
    from Cons.IH[OF sub False] i False show ?thesis by simp
  qed
qed

lemma getSelector_loop_chain:
  "node_at doc cur = Some n \<Longrightarrow> nodeType n = 1 \<Longrightarrow> length parts \<le> 5 \<Longrightarrow>
     getSelector_loop esc doc cur parts =
       chain_parts esc doc (take (6 - length parts) (ancestors_or_self cur)) @ parts"
proof (induction esc doc cur parts arbitrary: n rule: getSelector_loop.induct)
  case (1 esc doc cur parts)
  define k where "k = 5 - length parts"
  have k: "6 - length parts = Suc k" "5 - length parts = k"
    using "1.prems"(3) by (simp_all add: k_def)
  have idc: "idAt doc cur = el_id n" and lvl: "levelAt esc doc cur = levelSelector esc doc cur n"
    using "1.prems"(1) by (simp_all add: idAt_def levelAt_def)
  have chain: "take (6 - length parts) (ancestors_or_self cur) =
      cur # take k (if cur = [] then [] else ancestors_or_self (butlast cur))"
    unfolding k by (subst ancestors_or_self_rec) simp
  show ?case
  proof (cases "el_id n \<noteq> []")
    case True
    with "1.prems" show ?thesis
      unfolding chain by (subst getSelector_loop.simps) (simp add: idc)
  next
    case noid: False
    show ?thesis
    proof (cases "cur = [] \<or> length parts = 5")
      case True
      with noid "1.prems" k show ?thesis
        unfolding chain by (subst getSelector_loop.simps) (auto simp: idc lvl Let_def)
    next
      case False
      then have ne: "cur \<noteq> []" and lt: "length parts < 5" using "1.prems"(3) by auto
      from node_at_parent[OF "1.prems"(1) ne] obtain m where
        m: "node_at doc (butlast cur) = Some m" "nodeType m = 1" by blast
      have "getSelector_loop esc doc (butlast cur) (levelSelector esc doc cur n # parts) =
          chain_parts esc doc (take (6 - length (levelSelector esc doc cur n # parts))
             (ancestors_or_self (butlast cur))) @ levelSelector esc doc cur n # parts"
        using "1.IH"[OF "1.prems"(1) _ _ refl ne _ m] "1.prems"(2) noid lt by simp
      moreover have "6 - length (levelSelector esc doc cur n # parts) = k"
        using k by simp
      ultimately show ?thesis
        using noid "1.prems" ne lt unfolding chain
        by (subst getSelector_loop.simps) (simp add: idc lvl Let_def)
    qed
  qed
qed

text \<open>
  C7, as amended: \<open>getSelector\<close> returns \<open>#id\<close> (escaped) at once for an element
  with an id. Otherwise it walks over the element and at most its five nearest
  ancestors, up to the root; the walk ends early at the first ancestor that has an
  id, which heads the path as \<open>#id\<close>; every level before it gives its lower-case
  tag name, at most two class tokens and an \<open>nth-of-type\<close> position when it has
  siblings of its tag; the levels are joined with \<open> > \<close>, root side first.
\<close>

theorem getSelector_walk:
  "getSelector esc doc el = amended_getSelector esc doc el"
proof (cases "node_at doc el")
  case None
  then show ?thesis by (simp add: getSelector_def amended_getSelector_def)
next
  case (Some n)
  show ?thesis
  proof (cases "nodeType n = 1 \<and> el_id n = []")
    case False
    with Some show ?thesis by (auto simp: getSelector_def amended_getSelector_def)
  next
    case True
    with getSelector_loop_chain[OF Some, of "[]" esc]
    have "getSelector_loop esc doc el [] = chain_parts esc doc (take 6 (ancestors_or_self el))"
      by simp
    with Some True show ?thesis
      by (simp add: getSelector_def amended_getSelector_def chain_parts_eq Let_def)
  qed
qed

text \<open>
  C7 as stated fails for the \<open>span\<close> below \<open>div#main\<close>: the walk stops at the
  \<open>div\<close> and never reaches \<open>body\<close> and \<open>html\<close>.
\<close>

theorem getSelector_walk_counterexample:
  "getSelector (\<lambda>s. s) ex_document [0, 2, 0] = ''#main > span'' \<and>
   spec_getSelector (\<lambda>s. s) ex_document [0, 2, 0] = ''html > body.page.dark > div:nth-of-type(2) > span'' \<and>
   getSelector (\<lambda>s. s) ex_document [0, 2, 0] \<noteq> spec_getSelector (\<lambda>s. s) ex_document [0, 2, 0]"
  by code_simp

subsection \<open>Exclusion in the mutation stream\<close>

text \<open>
  C1: an excluded subtree should yield no event. On the example document the first
  \<open>div\<close> and the first paragraph of the \<open>section\<close> are excluded. \<open>processMutations\<close>
  still emits an event for the text node inside the excluded \<open>div\<close>, with its new
  text, since only element targets are tested; and the event for the added
  \<open>section\<close> serializes the excluded paragraph and its text, since the serializer is
  called without the set of excluded elements.
\<close>

theorem processMutations_leaks_excluded:
  "isExcluded ''data-ym-disable'' ex_document [0, 0] \<and>
   parentElement [0, 0, 0] = Some [0, 0] \<and>
   isExcluded ''data-ym-disable'' ex_document [0, 1, 0] \<and>
   fst (processMutations 7 (\<lambda>s. s) ex_document ex_mutations ex_recorder) =
  [\<lparr>ev_type = DOM_MUTATION, ev_timestamp = 7, ev_sessionId = None,
     ev_data = MutationData 1 [] (CHARACTER_DATA (Some ''old'') ''secret'')\<rparr>,
   \<lparr>ev_type = DOM_MUTATION, ev_timestamp = 7, ev_sessionId = None,
     ev_data =
       MutationData 2 ''html > body.page.dark''
        (CHILD_LIST
          [(3, Some
                (SNode 1 ''SECTION'' None None
                  (Some
                    [SNode 1 ''P'' None (Some [(''data-ym-disable'', [])])
                      (Some [SNode 3 ''#text'' (Some ''hidden'') None None None None])
                      None None,
                     SNode 1 ''P'' None None
                      (Some [SNode 3 ''#text'' (Some ''shown'') None None None None])
                      None None])
                  None None))]
          [])\<rparr>]"
  by code_simp

subsection \<open>The file store\<close>

lemma safeId_chars: "list_all isSafeIdChar (safeId sid)"
  by (simp add: safeId_def list_all_iff)

lemma safe_not_sep: "isSafeIdChar c \<Longrightarrow> c \<noteq> CHR ''/'' \<and> c \<noteq> CHR 0x5C \<and> c \<noteq> CHR ''.''"
  by (auto simp: isSafeIdChar_def)

lemma file_name_plain:
  "CHR ''/'' \<notin> set (safeId sid @ ''.json'') \<and> CHR 0x5C \<notin> set (safeId sid @ ''.json'') \<and>
   safeId sid @ ''.json'' \<noteq> ''.'' \<and> safeId sid @ ''.json'' \<noteq> ''..''"
proof -
  have "\<forall>c \<in> set (safeId sid). c \<noteq> CHR ''/'' \<and> c \<noteq> CHR 0x5C"
    using safe_not_sep by (auto simp: safeId_def)
  moreover have "length (safeId sid @ ''.json'') \<ge> 5" by simp
  ultimately show ?thesis by auto
qed

lemma init_storagePath: "storagePath (fst (init st fs)) = storagePath st"
  by (simp add: init_def)

lemma init_files: "files (snd (init st fs)) = files fs"
  by (simp add: init_def)

text \<open>
  C10: for every session id, \<open>getSessionPath\<close> is the storage path joined with
  \<open>s.json\<close>, where \<open>s\<close> has characters of \<open>[A-Za-z0-9_-]\<close> only; that file name has
  no slash and no backslash and is not a dot segment, so it names a file directly
  in the storage directory. \<open>storeEvents\<close> and \<open>deleteSession\<close> change no file at
  any other path \<open>p\<close>, \<open>getSession\<close> changes no file at all, and what the three
  return depends on the file system only through the file at that path.
\<close>

theorem getSessionPath_confined:
  "getSessionPath path_join st sid = path_join (storagePath st) (safeId sid @ ''.json'') \<and>
   list_all isSafeIdChar (safeId sid) \<and>
   CHR ''/'' \<notin> set (safeId sid @ ''.json'') \<and> CHR 0x5C \<notin> set (safeId sid @ ''.json'') \<and>
   safeId sid @ ''.json'' \<noteq> ''.'' \<and> safeId sid @ ''.json'' \<noteq> ''..'' \<and>
   (p \<noteq> getSessionPath path_join st sid \<longrightarrow>
      files (snd (snd (storeEvents path_join now sid evs meta st fs))) p = files fs p \<and>
      files (snd (deleteSession path_join sid st fs)) p = files fs p) \<and>
   files (snd (snd (getSession path_join sid st fs))) = files fs \<and>
   (files fs (getSessionPath path_join st sid) = files fs' (getSessionPath path_join st sid) \<longrightarrow>
      fst (storeEvents path_join now sid evs meta st fs) = fst (storeEvents path_join now sid evs meta st fs') \<and>
      fst (getSession path_join sid st fs) = fst (getSession path_join sid st fs') \<and>
      fst (deleteSession path_join sid st fs) = fst (deleteSession path_join sid st fs'))"
proof -
  have path: "getSessionPath path_join (fst (init st fs)) sid = getSessionPath path_join st sid" for fs :: "('a, 'b) filesystem"
    by (simp add: getSessionPath_def init_storagePath)
  have a: "getSessionPath path_join st sid = path_join (storagePath st) (safeId sid @ ''.json'')"
    by (simp add: getSessionPath_def)
  have frame: "p \<noteq> getSessionPath path_join st sid \<longrightarrow>
      files (snd (snd (storeEvents path_join now sid evs meta st fs))) p = files fs p \<and>
      files (snd (deleteSession path_join sid st fs)) p = files fs p"
    using path[of fs] init_files[of st fs]
    by (auto simp: storeEvents_def deleteSession_def Let_def split: prod.splits option.splits)
  have g: "files (snd (snd (getSession path_join sid st fs))) = files fs"
    using init_files[of st fs] by (auto simp: getSession_def Let_def split: prod.splits)
  have r: "files fs (getSessionPath path_join st sid) = files fs' (getSessionPath path_join st sid) \<longrightarrow>
      fst (storeEvents path_join now sid evs meta st fs) = fst (storeEvents path_join now sid evs meta st fs') \<and>
      fst (getSession path_join sid st fs) = fst (getSession path_join sid st fs') \<and>
      fst (deleteSession path_join sid st fs) = fst (deleteSession path_join sid st fs')"
    using path[of fs] path[of fs'] init_files[of st fs] init_files[of st fs']
    by (auto simp: storeEvents_def getSession_def deleteSession_def Let_def
          split: prod.splits option.splits)
  from a safeId_chars file_name_plain frame g r show ?thesis by blast
qed

text \<open>The id \<open>../../etc/passwd\<close> lands on \<open>etcpasswd.json\<close> inside the storage directory.\<close>

theorem getSessionPath_confined_witness:
  "''/etc/passwd.json'' \<noteq> getSessionPath ex_join ex_store ''../../etc/passwd'' \<and>
   getSessionPath ex_join ex_store ''../../etc/passwd'' = ''./data/sessions/etcpasswd.json'' \<and>
   files (snd (snd (storeEvents ex_join 100 ''../../etc/passwd'' [] ex_meta ex_store ex_fs)))
     ''/etc/passwd.json'' = None \<and>
   files ex_fs (getSessionPath ex_join ex_store ''../../etc/passwd'') =
     files ex_fs' (getSessionPath ex_join ex_store ''../../etc/passwd'') \<and>
   fst (getSession ex_join ''../../etc/passwd'' ex_store ex_fs) =
     fst (getSession ex_join ''../../etc/passwd'' ex_store ex_fs')"
proof -
  have p: "getSessionPath ex_join ex_store ''../../etc/passwd'' = ''./data/sessions/etcpasswd.json''"
    by (simp add: getSessionPath_def ex_join_def ex_store_def safeId_def isSafeIdChar_def)
  have ne: "''/etc/passwd.json'' \<noteq> getSessionPath ex_join ex_store ''../../etc/passwd''"
    unfolding p by simp
  have agree: "files ex_fs (getSessionPath ex_join ex_store ''../../etc/passwd'') =
     files ex_fs' (getSessionPath ex_join ex_store ''../../etc/passwd'')"
    unfolding p by (simp add: ex_fs_def ex_fs'_def)
  note t = getSessionPath_confined[of ex_join ex_store "''../../etc/passwd''" "''/etc/passwd.json''"
              100 "[]" ex_meta ex_fs ex_fs']
  from t ne have "files (snd (snd (storeEvents ex_join 100 ''../../etc/passwd'' [] ex_meta ex_store ex_fs)))
     ''/etc/passwd.json'' = files ex_fs ''/etc/passwd.json''" by blast
  then have w: "files (snd (snd (storeEvents ex_join 100 ''../../etc/passwd'' [] ex_meta ex_store ex_fs)))
     ''/etc/passwd.json'' = None" by (simp add: ex_fs_def)
  from t agree have "fst (getSession ex_join ''../../etc/passwd'' ex_store ex_fs) =
     fst (getSession ex_join ''../../etc/passwd'' ex_store ex_fs')" by blast
  with ne p w agree show ?thesis by blast
qed

text \<open>
  The file store has no event count; what it keeps per session is the events
  themselves. Two batches for an id that has no file leave one file for the id,
  holding the events of the first batch followed by those of the second.
\<close>

lemma storeEvents_file_appends:
  assumes "files fs (getSessionPath path_join st sid) = None"
      and "storeEvents path_join now1 sid evs1 meta1 st fs = (s1, st1, fs1)"
      and "storeEvents path_join now2 sid evs2 meta2 st1 fs1 = (s2, st2, fs2)"
  shows "sf_events s1 = evs1 \<and> sf_events s2 = evs1 @ evs2 \<and>
         files fs2 (getSessionPath path_join st sid) = Some (SessionJson s2) \<and>
         dom (files fs2) = insert (getSessionPath path_join st sid) (dom (files fs))"
proof -
  have p: "getSessionPath path_join (fst (init st' fs')) sid = getSessionPath path_join st' sid"
    for st' and fs' :: "('a, 'b) filesystem"
    by (simp add: getSessionPath_def init_storagePath)
  from assms(2) have sp: "storagePath st1 = storagePath st"
    by (auto simp: storeEvents_def Let_def init_def split: prod.splits if_splits)
  then have p1: "getSessionPath path_join st1 sid = getSessionPath path_join st sid"
    by (simp add: getSessionPath_def)
  from assms(1,2) p[of st fs] init_files[of st fs]
  have a: "sf_events s1 = evs1"
    and f1: "files fs1 = (files fs)(getSessionPath path_join st sid \<mapsto> SessionJson s1)"
    by (auto simp: storeEvents_def Let_def split: prod.splits)
  from assms(3) p[of st1 fs1] init_files[of st1 fs1] f1 p1
  have b: "sf_events s2 = sf_events s1 @ evs2"
    and f2: "files fs2 = (files fs1)(getSessionPath path_join st sid \<mapsto> SessionJson s2)"
    by (auto simp: storeEvents_def Let_def split: prod.splits)
  from a b f1 f2 show ?thesis by auto
qed

subsection \<open>The row store\<close>

lemma upsert_visitor_sessions:
  "upsert_visitor now fp ip meta db = Inr (vid, db') \<Longrightarrow> sessions db' = sessions db"
  by (auto simp: upsert_visitor_def split: if_splits list.splits)

lemma insert_event_sessions:
  "insert_event now sid ev db = Inr db' \<Longrightarrow> sessions db' = sessions db"
  by (auto simp: insert_event_def split: if_splits option.splits)

lemma insert_events_sessions:
  "insert_events now sid evs db = Inr db' \<Longrightarrow> sessions db' = sessions db"
proof (induction evs arbitrary: db)
  case Nil
  then show ?case by simp
next
  case (Cons ev evs)
  then show ?case
    by (auto split: sum.splits dest: insert_event_sessions)
qed

lemma insert_session_sessions:
  "insert_session now sid vid fp ip meta db = Inr db' \<Longrightarrow>
     \<exists>row. sessions db' = sessions db @ [row] \<and> s_session_id row = sid \<and> s_event_count row = 0"
  by (auto simp: insert_session_def split: if_splits)

lemma update_event_count_sessions:
  "update_event_count now sid n db = Inr db' \<Longrightarrow> sessions db' = map (bump now sid n) (sessions db)"
  by (auto simp: update_event_count_def bump_def split: if_splits)

lemma pg_storeEvents_sessions:
  assumes "pg_storeEvents now sid evs meta ip db = Inr db'"
  shows "\<exists>new. sessions db' = map (bump now sid (length evs)) (sessions db @ new) \<and>
           (if filter (\<lambda>s. s_session_id s = sid) (sessions db) = []
            then \<exists>row. new = [row] \<and> s_session_id row = sid \<and> s_event_count row = 0
            else new = [])"
proof -
  let ?fp = "generateFingerprint meta ip"
  from assms obtain visitorId db1 where
    v: "(if ?fp \<noteq> []
         then (case upsert_visitor now ?fp ip meta db of
                 Inl err \<Rightarrow> Inl err
               | Inr (vid, db1) \<Rightarrow> Inr (Some vid, db1))
         else Inr (None, db)) = Inr (visitorId, db1)"
    by (auto simp: pg_storeEvents_def Let_def split: sum.splits)
  then have s1: "sessions db1 = sessions db"
    by (auto split: if_splits sum.splits dest: upsert_visitor_sessions)
  from assms v obtain db2 where
    i: "(if filter (\<lambda>s. s_session_id s = sid) (sessions db1) = []
         then insert_session now sid visitorId ?fp ip meta db1
         else Inr db1) = Inr db2"
    by (auto simp: pg_storeEvents_def Let_def split: sum.splits)
  from assms v i obtain db3 where
    e: "insert_events now sid evs db2 = Inr db3"
    and u: "update_event_count now sid (length evs) db3 = Inr db'"
    by (auto simp: pg_storeEvents_def Let_def split: sum.splits)
  have s3: "sessions db3 = sessions db2" using e by (rule insert_events_sessions)
  have s4: "sessions db' = map (bump now sid (length evs)) (sessions db2)"
    using update_event_count_sessions[OF u] s3 by simp
  show ?thesis
  proof (cases "filter (\<lambda>s. s_session_id s = sid) (sessions db) = []")
    case True
    with i s1 have "insert_session now sid visitorId ?fp ip meta db1 = Inr db2" by simp
    from insert_session_sessions[OF this] obtain row where
      "sessions db2 = sessions db1 @ [row]" "s_session_id row = sid" "s_event_count row = 0"
      by blast
    with s1 s4 True show ?thesis by (intro exI[of _ "[row]"]) simp
  next
    case False
    with i s1 have "db2 = db1" by simp
    with s1 s4 False show ?thesis by auto
  qed
qed

lemma filter_bump:
  "filter (\<lambda>s. s_session_id s = sid) (map (bump now sid n) xs) =
     map (bump now sid n) (filter (\<lambda>s. s_session_id s = sid) xs)"
  by (induction xs) (auto simp: bump_def)

text \<open>
  C8: when a batch for a session id without a row is stored and committed, there is
  exactly one row for that id afterwards and its event count is the size of the
  batch; when a second batch for the same id is committed, that same row, and no
  other, carries the sum of the two sizes, and the table has no more rows than
  after the first batch. With batches of 3 and 2 events the counts are 3 and 5.
\<close>

theorem pg_storeEvents_counts:
  assumes fresh: "filter (\<lambda>s. s_session_id s = sid) (sessions db0) = []"
      and first: "pg_storeEvents now1 sid evs1 meta1 ip1 db0 = Inr db1"
      and second: "pg_storeEvents now2 sid evs2 meta2 ip2 db1 = Inr db2"
  shows "\<exists>row1 row2.
           filter (\<lambda>s. s_session_id s = sid) (sessions db1) = [row1] \<and>
           s_event_count row1 = int (length evs1) \<and>
           filter (\<lambda>s. s_session_id s = sid) (sessions db2) = [row2] \<and>
           s_event_count row2 = int (length evs1) + int (length evs2) \<and>
           s_id row2 = s_id row1 \<and>
           length (sessions db1) = length (sessions db0) + 1 \<and>
           length (sessions db2) = length (sessions db1)"
proof -
  from pg_storeEvents_sessions[OF first] fresh obtain row where
    d1: "sessions db1 = map (bump now1 sid (length evs1)) (sessions db0 @ [row])"
    and row: "s_session_id row = sid" "s_event_count row = 0"
    by auto
  let ?row1 = "bump now1 sid (length evs1) row"
  have f1: "filter (\<lambda>s. s_session_id s = sid) (sessions db1) = [?row1]"
    unfolding d1 filter_bump using fresh row by simp
  have c1: "s_event_count ?row1 = int (length evs1)"
    using row by (simp add: bump_def)
  from f1 have ne: "filter (\<lambda>s. s_session_id s = sid) (sessions db1) \<noteq> []" by simp
  from pg_storeEvents_sessions[OF second] ne have
    d2: "sessions db2 = map (bump now2 sid (length evs2)) (sessions db1)"
    by auto
  let ?row2 = "bump now2 sid (length evs2) ?row1"
  have f2: "filter (\<lambda>s. s_session_id s = sid) (sessions db2) = [?row2]"
    unfolding d2 filter_bump f1 by simp
  have c2: "s_event_count ?row2 = int (length evs1) + int (length evs2)"
    using row by (simp add: bump_def)
  have i2: "s_id ?row2 = s_id ?row1" by (simp add: bump_def)
  have l1: "length (sessions db1) = length (sessions db0) + 1" unfolding d1 by simp
  have l2: "length (sessions db2) = length (sessions db1)" unfolding d2 by simp
  from f1 c1 f2 c2 i2 l1 l2 show ?thesis by blast
qed

text \<open>Batches of three and of two events, stored into the empty database.\<close>

lemma ex_first:
  "pg_storeEvents 100 ''wv_abc'' (map ex_wire_event [1, 2, 3]) ex_meta (Some ''10.0.0.7'')
     empty_database = Inr ex_db1"
  by code_simp

lemma ex_second:
  "pg_storeEvents 200 ''wv_abc'' (map ex_wire_event [4, 5]) ex_meta (Some ''10.0.0.7'')
     ex_db1 = Inr ex_db2"
  by code_simp

theorem pg_storeEvents_counts_witness:
  "filter (\<lambda>s. s_session_id s = ''wv_abc'') (sessions empty_database) = [] \<and>
   pg_storeEvents 100 ''wv_abc'' (map ex_wire_event [1, 2, 3]) ex_meta (Some ''10.0.0.7'')
     empty_database = Inr ex_db1 \<and>
   pg_storeEvents 200 ''wv_abc'' (map ex_wire_event [4, 5]) ex_meta (Some ''10.0.0.7'')
     ex_db1 = Inr ex_db2 \<and>
   map s_event_count (filter (\<lambda>s. s_session_id s = ''wv_abc'') (sessions ex_db1)) = [3] \<and>
   map s_event_count (filter (\<lambda>s. s_session_id s = ''wv_abc'') (sessions ex_db2)) = [5] \<and>
   length (sessions ex_db2) = 1"
proof -
  have fresh: "filter (\<lambda>s. s_session_id s = ''wv_abc'') (sessions empty_database) = []"
    by (simp add: empty_database_def)
  from pg_storeEvents_counts[OF fresh ex_first ex_second] obtain row1 row2 where
    r: "filter (\<lambda>s. s_session_id s = ''wv_abc'') (sessions ex_db1) = [row1]"
       "s_event_count row1 = int (length (map ex_wire_event [1, 2, 3]))"
       "filter (\<lambda>s. s_session_id s = ''wv_abc'') (sessions ex_db2) = [row2]"
       "s_event_count row2 = int (length (map ex_wire_event [1, 2, 3])) + int (length (map ex_wire_event [4, 5]))"
       "length (sessions ex_db1) = length (sessions empty_database) + 1"
       "length (sessions ex_db2) = length (sessions ex_db1)"
    by blast
  have "map s_event_count (filter (\<lambda>s. s_session_id s = ''wv_abc'') (sessions ex_db1)) = [3]"
    unfolding r(1) using r(2) by simp
  moreover have "map s_event_count (filter (\<lambda>s. s_session_id s = ''wv_abc'') (sessions ex_db2)) = [5]"
    unfolding r(3) using r(4) by simp
  moreover have "length (sessions ex_db2) = 1"
    unfolding r(6) r(5) by (simp add: empty_database_def)
  ultimately show ?thesis using fresh ex_first ex_second by blast
qed

end
